theory Spec2Isabelle
  imports Complex_Main "HOL-Library.Multiset" "HOL-Library.Log_Nat"
begin

section \<open>Python values and exceptions\<close>

text \<open>
  The exceptions that the modelled code can raise. A raise is the left injection of a sum.
\<close>

datatype error =
    TypeError
  | ValueError
  | IndexError
  | AttributeError
  | ZeroDivisionError

definition bind_e :: "error + 'a \<Rightarrow> ('a \<Rightarrow> error + 'b) \<Rightarrow> error + 'b" where
  "bind_e m f = (case m of Inl e \<Rightarrow> Inl e | Inr x \<Rightarrow> f x)"

text \<open>\<open>xs[i]\<close> for a non-negative index: IndexError out of range.\<close>

definition index :: "'a list \<Rightarrow> nat \<Rightarrow> error + 'a" where
  "index xs i = (if i < length xs then Inr (xs ! i) else Inl IndexError)"

text \<open>\<open>xs.remove(u)\<close>: drops the first occurrence, ValueError when there is none.\<close>

definition py_remove :: "'a \<Rightarrow> 'a list \<Rightarrow> error + 'a list" where
  "py_remove u xs = (if u \<in> set xs then Inr (remove1 u xs) else Inl ValueError)"

text \<open>\<open>s.split(c)\<close> for a separator of one character: always at least one part.\<close>

fun split_on :: "char \<Rightarrow> string \<Rightarrow> string list" where
  "split_on c [] = [[]]"
| "split_on c (x # xs) =
     (if x = c then [] # split_on c xs
      else (case split_on c xs of [] \<Rightarrow> [[x]] | p # ps \<Rightarrow> (x # p) # ps))"

text \<open>\<open>c.join(parts)\<close>.\<close>

fun join_with :: "char \<Rightarrow> string list \<Rightarrow> string" where
  "join_with c [] = []"
| "join_with c [p] = p"
| "join_with c (p # q # ps) = p @ c # join_with c (q # ps)"

section \<open>functions.py: units\_combining\<close>

text \<open>
  The first half of \<open>units_combining\<close>: the message built from the two units, each
  already split at \<open>/\<close>. \<open>units[1]\<close> is read only after \<open>len(units[0])\<close> was 1 or 2
  (the conditions short-circuit); a unit of three or more parts matches no branch and
  leaves the message empty.
\<close>

definition build_message :: "string list list \<Rightarrow> string \<Rightarrow> error + string" where
  "build_message units operation =
     (if operation = ''/'' \<or> operation = ''*'' then
        (case units of
           [] \<Rightarrow> Inl IndexError
         | u0 # rest \<Rightarrow>
             (case u0 of
                [a] \<Rightarrow>
                  (case rest of
                     [] \<Rightarrow> Inl IndexError
                   | u1 # _ \<Rightarrow>
                       (case u1 of
                          [b] \<Rightarrow>
                            Inr (if operation = ''/'' then a @ ''/'' @ b else a @ ''.'' @ b)
                        | [b0, b1] \<Rightarrow>
                            (let u1' = (if operation = ''/'' then rev [b0, b1] else [b0, b1])
                             in Inr (a @ ''.'' @ u1' ! 0 @ ''/'' @ u1' ! 1))
                        | _ \<Rightarrow> Inr ''''))
              | [a0, a1] \<Rightarrow>
                  (case rest of
                     [] \<Rightarrow> Inl IndexError
                   | u1 # _ \<Rightarrow>
                       (case u1 of
                          [b] \<Rightarrow>
                            Inr (if operation = ''/'' then a0 @ ''/'' @ a1 @ b
                                 else a0 @ ''.'' @ b @ ''/'' @ a1)
                        | [b0, b1] \<Rightarrow>
                            (let u1' = (if operation = ''/'' then rev [b0, b1] else [b0, b1])
                             in Inr (a0 @ ''.'' @ u1' ! 0 @ ''/'' @ a1 @ ''.'' @ u1' ! 1))
                        | _ \<Rightarrow> Inr ''''))
              | _ \<Rightarrow> Inr ''''))
      else Inr '''')"

text \<open>
  The cancelling loop of a division, over the copy \<open>_\<close> of the numerator tokens:
  a token found in the denominator is removed from both sides.
\<close>

fun cancel_div ::
  "string list \<Rightarrow> string list \<times> string list \<Rightarrow> error + (string list \<times> string list)"
where
  "cancel_div [] (n, d) = Inr (n, d)"
| "cancel_div (u # us) (n, d) =
     (if u \<in> set d then
        bind_e (py_remove u d) (\<lambda>d'.
        bind_e (py_remove u n) (\<lambda>n'. cancel_div us (n', d')))
      else cancel_div us (n, d))"

text \<open>
  The cancelling loop of a multiplication, \<open>for i, u in enumerate(_)\<close>: the token at
  position 0 is compared with \<open>units[1][1]\<close>, the token at position \<open>i > 0\<close> with
  \<open>units[1][i-1]\<close>.
\<close>

fun cancel_mul ::
  "nat \<Rightarrow> string list \<Rightarrow> string list \<times> string list \<Rightarrow> error + (string list \<times> string list)"
where
  "cancel_mul i [] (n, d) = Inr (n, d)"
| "cancel_mul i (u # us) (n, d) =
     bind_e (index d (if i = 0 then i + 1 else i - 1)) (\<lambda>x.
       if u = x then
         bind_e (py_remove u d) (\<lambda>d'.
         bind_e (py_remove u n) (\<lambda>n'. cancel_mul (i + 1) us (n', d')))
       else cancel_mul (i + 1) us (n, d))"

text \<open>
  The second half: the message is split again at \<open>/\<close> and \<open>.\<close>, tokens are cancelled,
  and the result is joined. \<open>units[1]\<close> does not exist when the message has no \<open>/\<close>.
\<close>

definition simplify_message :: "string \<Rightarrow> string \<Rightarrow> error + string" where
  "simplify_message message operation =
     (let units = map (split_on CHR ''.'') (split_on CHR ''/'' message) in
      bind_e (index units 0) (\<lambda>n.
        if operation = ''/'' then
          bind_e (index units 1) (\<lambda>d.
          bind_e (cancel_div n (n, d)) (\<lambda>(n', d').
            Inr (join_with CHR ''.'' n' @ ''/'' @ join_with CHR ''.'' d')))
        else if length n = 1 then Inr (join_with CHR ''.'' n)
        else if length units = 1 then Inr (join_with CHR ''.'' n)
        else
          bind_e (index units 1) (\<lambda>d.
          bind_e (cancel_mul 0 n (n, d)) (\<lambda>(n', d').
            Inr (join_with CHR ''.'' n' @ ''/'' @ join_with CHR ''.'' d')))))"

text \<open>The last line: a message with an empty side keeps only what is before the first \<open>/\<close>.\<close>

definition strip_empty :: "string \<Rightarrow> string" where
  "strip_empty message =
     (if '''' \<in> set (split_on CHR ''/'' message) then hd (split_on CHR ''/'' message)
      else message)"

text \<open>
  \<open>units_combining(units, operation)\<close>. A unit is a string or None (the default unit of
  a Stat); \<open>None.split\<close> raises AttributeError.
\<close>

definition split_units :: "string option list \<Rightarrow> error + string list list" where
  "split_units units =
     (if None \<in> set units then Inl AttributeError
      else Inr (map (\<lambda>u. split_on CHR ''/'' (the u)) units))"

definition units_combining :: "string option list \<Rightarrow> string \<Rightarrow> error + string option" where
  "units_combining units operation =
     (if length units > 2 then Inl ValueError
      else if operation = ''+'' then index units 0
      else if operation = ''-'' then index units 0
      else
        bind_e (split_units units) (\<lambda>us.
        bind_e (build_message us operation) (\<lambda>message.
        bind_e (simplify_message message operation) (\<lambda>message'.
          Inr (Some (strip_empty message'))))))"

section \<open>The numeric reductions\<close>

text \<open>
  classes.py imports \<open>mean\<close>, \<open>std\<close>, \<open>median\<close>, \<open>first_quartile\<close>, \<open>third_quartile\<close>,
  \<open>iqr\<close>, \<open>outliers\<close> and \<open>remove_outliers\<close> from raphutils.functions, which does not
  define them. They are parameters of the model: a record of functions, each of which
  may raise.
\<close>

record reductions =
  mean_of :: "real list \<Rightarrow> error + real"
  std_of :: "real list \<Rightarrow> error + real"
  median_of :: "real list \<Rightarrow> error + real"
  first_quartile_of :: "real list \<Rightarrow> error + real"
  third_quartile_of :: "real list \<Rightarrow> error + real"
  iqr_of :: "real list \<Rightarrow> error + real"
  outliers_of :: "real list \<Rightarrow> error + real list"
  remove_outliers_of :: "real list \<Rightarrow> error + real list"

text \<open>
  Modelled from the spec: the eight reductions are missing from src/, and section 6 of
  the spec gives only their names and signatures (pure reductions of a sequence of
  numbers). This instance takes the textbook meaning of each name: arithmetic mean,
  population standard deviation, median of the sorted data, the medians of the two halves
  as quartiles, their difference, and the values beyond 1.5 interquartile ranges. None of
  them raises, as numpy's reductions do not; where numpy answers nan on the empty
  sequence, the quotient \<open>0 / 0\<close> is 0 here. It serves to run the operators on concrete
  inputs; the theorems about the classes hold for every record of reductions.
\<close>

definition arith_mean :: "real list \<Rightarrow> real" where
  "arith_mean xs = sum_list xs / real (length xs)"

definition pop_std :: "real list \<Rightarrow> real" where
  "pop_std xs = sqrt (sum_list (map (\<lambda>x. (x - arith_mean xs) ^ 2) xs) / real (length xs))"

definition mid :: "real list \<Rightarrow> real" where
  "mid xs =
     (let s = sort xs; n = length s in
      if n = 0 then 0
      else if odd n then s ! (n div 2)
      else (s ! (n div 2 - 1) + s ! (n div 2)) / 2)"

definition quartile1 :: "real list \<Rightarrow> real" where
  "quartile1 xs = mid (take ((length xs + 1) div 2) (sort xs))"

definition quartile3 :: "real list \<Rightarrow> real" where
  "quartile3 xs = mid (drop (length xs div 2) (sort xs))"

definition is_outlier :: "real list \<Rightarrow> real \<Rightarrow> bool" where
  "is_outlier xs x =
     (let w = 3 / 2 * (quartile3 xs - quartile1 xs) in
      x < quartile1 xs - w \<or> quartile3 xs + w < x)"

definition textbook :: reductions where
  "textbook =
     \<lparr> mean_of = (\<lambda>xs. Inr (arith_mean xs)),
       std_of = (\<lambda>xs. Inr (pop_std xs)),
       median_of = (\<lambda>xs. Inr (mid xs)),
       first_quartile_of = (\<lambda>xs. Inr (quartile1 xs)),
       third_quartile_of = (\<lambda>xs. Inr (quartile3 xs)),
       iqr_of = (\<lambda>xs. Inr (quartile3 xs - quartile1 xs)),
       outliers_of = (\<lambda>xs. Inr (filter (is_outlier xs) xs)),
       remove_outliers_of = (\<lambda>xs. Inr (filter (\<lambda>x. \<not> is_outlier xs x) xs)) \<rparr>"

section \<open>classes.py: Stat\<close>

record stat =
  name :: string
  data :: "real list"
  unit :: "string option"
  discrete :: bool
  mean :: real
  std :: real
  median :: real
  first_quartile :: real
  third_quartile :: real
  iqr :: real
  outliers :: "real list"
  data_no_outliers :: "real list"

text \<open>
  The values an operand or a result can be: None, a Stat, or a number (an operand of
  another type).
\<close>

datatype pyval = PyNone | PyStat stat | PyNum real

text \<open>
  A method of Stat mutates the receiver and then returns or raises: the model returns the
  receiver's final state together with the outcome, so that what a raise leaves behind
  is visible.
\<close>

type_synonym outcome = "stat \<times> (error + pyval)"

definition then_do :: "outcome \<Rightarrow> (stat \<Rightarrow> outcome) \<Rightarrow> outcome" where
  "then_do r f = (case snd r of Inl e \<Rightarrow> r | Inr _ \<Rightarrow> f (fst r))"

text \<open>\<open>self.field = f(self.data)\<close>: no assignment when \<open>f\<close> raises.\<close>

definition set_from :: "(real list \<Rightarrow> error + 'a) \<Rightarrow> ('a \<Rightarrow> stat \<Rightarrow> stat) \<Rightarrow> stat \<Rightarrow> outcome" where
  "set_from f upd s =
     (case f (data s) of Inl e \<Rightarrow> (s, Inl e) | Inr v \<Rightarrow> (upd v s, Inr PyNone))"

text \<open>The eight assignments that follow the assignment of \<open>self.data\<close> in every operator.\<close>

definition recompute :: "reductions \<Rightarrow> stat \<Rightarrow> outcome" where
  "recompute c s =
     then_do (then_do (then_do (then_do (then_do (then_do (then_do
       (set_from (mean_of c) (\<lambda>v s. s\<lparr>mean := v\<rparr>) s)
       (set_from (std_of c) (\<lambda>v s. s\<lparr>std := v\<rparr>)))
       (set_from (median_of c) (\<lambda>v s. s\<lparr>median := v\<rparr>)))
       (set_from (first_quartile_of c) (\<lambda>v s. s\<lparr>first_quartile := v\<rparr>)))
       (set_from (third_quartile_of c) (\<lambda>v s. s\<lparr>third_quartile := v\<rparr>)))
       (set_from (iqr_of c) (\<lambda>v s. s\<lparr>iqr := v\<rparr>)))
       (set_from (outliers_of c) (\<lambda>v s. s\<lparr>outliers := v\<rparr>)))
       (set_from (remove_outliers_of c) (\<lambda>v s. s\<lparr>data_no_outliers := v\<rparr>))"

text \<open>\<open>self.unit = units_combining([self.unit, other.unit], operation)\<close>.\<close>

definition set_unit :: "string option \<Rightarrow> string \<Rightarrow> stat \<Rightarrow> outcome" where
  "set_unit other_unit operation s =
     (case units_combining [unit s, other_unit] operation of
        Inl e \<Rightarrow> (s, Inl e)
      | Inr u \<Rightarrow> (s\<lparr>unit := u\<rparr>, Inr PyNone))"

definition add :: "reductions \<Rightarrow> stat \<Rightarrow> pyval \<Rightarrow> outcome" where
  "add c s other =
     (case other of
        PyStat other' \<Rightarrow>
          if unit s \<noteq> unit other' then (s, Inl ValueError)
          else recompute c (s\<lparr>data := map2 (+) (data s) (data other')\<rparr>)
      | _ \<Rightarrow> (s, Inl TypeError))"

definition sub :: "reductions \<Rightarrow> stat \<Rightarrow> pyval \<Rightarrow> outcome" where
  "sub c s other =
     (case other of
        PyStat other' \<Rightarrow>
          if unit s \<noteq> unit other' then (s, Inl ValueError)
          else recompute c (s\<lparr>data := map2 (-) (data s) (data other')\<rparr>)
      | _ \<Rightarrow> (s, Inl TypeError))"

definition mul :: "reductions \<Rightarrow> stat \<Rightarrow> pyval \<Rightarrow> outcome" where
  "mul c s other =
     (case other of
        PyStat other' \<Rightarrow>
          then_do (recompute c (s\<lparr>data := map2 (*) (data s) (data other')\<rparr>))
            (set_unit (unit other') ''*'')
      | _ \<Rightarrow> (s, Inl TypeError))"

text \<open>
  \<open>x / y\<close> raises ZeroDivisionError at a zero divisor, inside the list comprehension and so
  before \<open>self.data\<close> is assigned.
\<close>

definition truediv :: "reductions \<Rightarrow> stat \<Rightarrow> pyval \<Rightarrow> outcome" where
  "truediv c s other =
     (case other of
        PyStat other' \<Rightarrow>
          if 0 \<in> set (map snd (zip (data s) (data other'))) then (s, Inl ZeroDivisionError)
          else
            then_do (recompute c (s\<lparr>data := map2 (/) (data s) (data other')\<rparr>))
              (set_unit (unit other') ''/'')
      | _ \<Rightarrow> (s, Inl TypeError))"

text \<open>
  The expression \<open>x + y\<close>: a Stat on the left runs \<open>Stat.__add__\<close>. None has no \<open>__add__\<close>,
  a number's \<open>__add__\<close> accepts only a number, and Stat defines no reflected method, so
  Python raises TypeError in the other cases.
\<close>

fun py_add :: "reductions \<Rightarrow> pyval \<Rightarrow> pyval \<Rightarrow> error + pyval" where
  "py_add c (PyStat s) y = snd (add c s y)"
| "py_add c (PyNum a) (PyNum b) = Inr (PyNum (a + b))"
| "py_add c x y = Inl TypeError"

text \<open>\<open>Stat.__init__\<close>.\<close>

definition Stat_init :: "reductions \<Rightarrow> string \<Rightarrow> real list \<Rightarrow> string option \<Rightarrow> bool \<Rightarrow> outcome" where
  "Stat_init c data_name data_list unit' discrete' =
     recompute c \<lparr> name = data_name, data = data_list, unit = unit', discrete = discrete',
       mean = 0, std = 0, median = 0, first_quartile = 0, third_quartile = 0, iqr = 0,
       outliers = [], data_no_outliers = [] \<rparr>"

section \<open>classes.py: Denombrement\<close>

text \<open>
  The dictionary of dilutions is a list of its items in insertion order, a count being
  an integer or None. \<open>10 ** e\<close> is an integer power for \<open>e \<ge> 0\<close> and a quotient below.
\<close>

record denombrement =
  dilutions :: "(int \<times> int option) list"
  d_name :: string

definition pow10 :: "int \<Rightarrow> real" where
  "pow10 e = (if 0 \<le> e then 10 ^ nat e else 1 / 10 ^ nat (- e))"

fun ufcs :: "(int \<times> int option) list \<Rightarrow> real list" where
  "ufcs [] = []"
| "ufcs ((dilution, ufc) # rest) =
     (case ufc of
        None \<Rightarrow> ufcs rest
      | Some u \<Rightarrow>
          if u < 30 \<or> u > 600 then ufcs rest
          else (of_int u * pow10 (- dilution)) # ufcs rest)"

definition get_ufc_per_ml :: "reductions \<Rightarrow> denombrement \<Rightarrow> error + (real \<times> real)" where
  "get_ufc_per_ml c self =
     bind_e (mean_of c (ufcs (dilutions self))) (\<lambda>m.
     bind_e (std_of c (ufcs (dilutions self))) (\<lambda>s. Inr (m, s)))"

section \<open>Floats\<close>

text \<open>
  A Python float and a numpy float64 are binary64 values: a finite number, the negative
  zero, an infinity or a NaN. \<open>Fin 0\<close> is the positive zero. A finite value carries its number
  as a real; the numbers that the format has are the \<open>representable\<close> ones, and an operation
  rounds its exact result to the nearest of them, a tie going to the even significand.
\<close>

datatype double = Fin real | NegZero | PosInf | NegInf | NaN

text \<open>\<open>2 ** e\<close> for an integer \<open>e\<close>.\<close>

definition pow2 :: "int \<Rightarrow> real" where
  "pow2 e = (if 0 \<le> e then 2 ^ nat e else 1 / 2 ^ nat (- e))"

text \<open>The binary exponent of a number other than 0: the \<open>e\<close> with \<open>2 ** e \<le> |x| < 2 ** (e + 1)\<close>.\<close>

definition expo :: "real \<Rightarrow> int" where
  "expo x = (if 1 \<le> \<bar>x\<bar> then bitlen \<lfloor>\<bar>x\<bar>\<rfloor> - 1 else - bitlen (\<lceil>1 / \<bar>x\<bar>\<rceil> - 1))"

text \<open>
  The distance between neighbouring doubles at \<open>x\<close>: 52 binary places below the exponent,
  and \<open>2 ** -1074\<close> throughout the subnormal range.
\<close>

definition quantum :: "real \<Rightarrow> real" where
  "quantum x = pow2 (max (expo x) (- 1022) - 52)"

text \<open>The nearest integer, a tie going to the even one.\<close>

definition round_even :: "real \<Rightarrow> int" where
  "round_even y =
     (let n = \<lfloor>y\<rfloor>; f = y - of_int n in
      if f < 1 / 2 then n else if 1 / 2 < f then n + 1 else if even n then n else n + 1)"

text \<open>The numbers of the format: below \<open>2 ** 1024\<close> and a whole number of quanta.\<close>

definition representable :: "real \<Rightarrow> bool" where
  "representable x =
     (x = 0 \<or> (\<bar>x\<bar> < pow2 1024 \<and> of_int \<lfloor>\<bar>x\<bar> / quantum x\<rfloor> = \<bar>x\<bar> / quantum x))"

definition is_double :: "double \<Rightarrow> bool" where
  "is_double x = (case x of Fin r \<Rightarrow> representable r | _ \<Rightarrow> True)"

text \<open>
  Rounding an exact result: a rounded value of \<open>2 ** 1024\<close> or more overflows to an
  infinity, a rounded value of 0 keeps the sign of the exact result.
\<close>

definition to_double :: "real \<Rightarrow> double" where
  "to_double x =
     (if x = 0 then Fin 0
      else
        let m = round_even (\<bar>x\<bar> / quantum x); r = of_int m * quantum x in
        if pow2 1024 \<le> r then (if x < 0 then NegInf else PosInf)
        else if m = 0 then (if x < 0 then NegZero else Fin 0)
        else Fin (if x < 0 then - r else r))"

text \<open>The sign bit, the two zeros and the two infinities by sign, and the number of a value.\<close>

definition sign_bit :: "double \<Rightarrow> bool" where
  "sign_bit x = (case x of Fin r \<Rightarrow> r < 0 | NegZero \<Rightarrow> True | NegInf \<Rightarrow> True | _ \<Rightarrow> False)"

definition signed_zero :: "bool \<Rightarrow> double" where
  "signed_zero s = (if s then NegZero else Fin 0)"

definition signed_inf :: "bool \<Rightarrow> double" where
  "signed_inf s = (if s then NegInf else PosInf)"

definition is_inf :: "double \<Rightarrow> bool" where
  "is_inf x = (x = PosInf \<or> x = NegInf)"

definition val :: "double \<Rightarrow> real" where
  "val x = (case x of Fin r \<Rightarrow> r | _ \<Rightarrow> 0)"

text \<open>
  \<open>x - y\<close> and \<open>x / y\<close> as numpy computes them: no exception, a division by a zero is an
  infinity or, for \<open>0 / 0\<close>, a NaN (numpy only warns). An exact difference of 0 is the
  positive zero unless it is \<open>-0.0 - 0.0\<close>.
\<close>

definition fsub :: "double \<Rightarrow> double \<Rightarrow> double" where
  "fsub x y =
     (if x = NaN \<or> y = NaN then NaN
      else if is_inf x \<and> is_inf y then (if x = y then NaN else x)
      else if is_inf x then x
      else if is_inf y then signed_inf (\<not> sign_bit y)
      else if val x - val y = 0 then (if x = NegZero \<and> y \<noteq> NegZero then NegZero else Fin 0)
      else to_double (val x - val y))"

definition fdiv :: "double \<Rightarrow> double \<Rightarrow> double" where
  "fdiv x y =
     (let s = (sign_bit x \<noteq> sign_bit y) in
      if x = NaN \<or> y = NaN then NaN
      else if is_inf x then (if is_inf y then NaN else signed_inf s)
      else if is_inf y then signed_zero s
      else if val y = 0 then (if val x = 0 then NaN else signed_inf s)
      else if val x = 0 then signed_zero s
      else to_double (val x / val y))"

text \<open>
  \<open>x < y\<close>, \<open>x != y\<close> and \<open>x == y\<close>: the two zeros are equal, and a NaN is neither below nor
  equal to anything.
\<close>

definition flt :: "double \<Rightarrow> double \<Rightarrow> bool" where
  "flt x y =
     (x \<noteq> NaN \<and> y \<noteq> NaN \<and>
      (if x = PosInf \<or> y = NegInf then False
       else if x = NegInf \<or> y = PosInf then True
       else val x < val y))"

definition fne :: "double \<Rightarrow> double \<Rightarrow> bool" where
  "fne x y =
     (x = NaN \<or> y = NaN \<or> (if is_inf x \<or> is_inf y then x \<noteq> y else val x \<noteq> val y))"

definition feq :: "double \<Rightarrow> double \<Rightarrow> bool" where
  "feq x y = (\<not> fne x y)"

text \<open>
  \<open>d[k] = v\<close> on a dictionary kept as the list of its items in insertion order: a key
  equal to \<open>k\<close> keeps its place and its own key object, otherwise the item is appended. The
  keys here are the numpy scalars read from an array, so two NaN keys are never the same
  object and never equal.
\<close>

fun dict_set :: "(double \<times> 'v) list \<Rightarrow> double \<Rightarrow> 'v \<Rightarrow> (double \<times> 'v) list" where
  "dict_set [] k v = [(k, v)]"
| "dict_set ((k', v') # rest) k v =
     (if feq k' k then (k', v) # rest else (k', v') # dict_set rest k v)"

section \<open>classes.py: GrowthMonitoring\<close>

text \<open>
  The entries of \<open>data_list\<close> and of \<open>time\<close> are floats; the integers of the examples
  convert to floats exactly, and the integer 0 that the code stores for a clamped rate, for
  the first rate and for a doubling time is the float 0 once the lists are arrays.
\<close>

record growth_monitoring =
  g_name :: string
  g_data :: "double list"
  time :: "double list"
  package :: "(double \<times> double) list"
  mu :: "double list"
  td :: "double list"

text \<open>
  \<open>math.log\<close>: ValueError unless the argument is positive, NaN for a NaN and infinity for
  the positive infinity. The result for a positive number is the double nearest to its
  natural logarithm: the C library that CPython calls is accurate to within a unit in the
  last place, and at the arguments 2, 100 and 200 used below it returns the nearest double.
\<close>

definition py_log :: "double \<Rightarrow> error + double" where
  "py_log x =
     (case x of
        Fin r \<Rightarrow> if 0 < r then Inr (to_double (ln r)) else Inl ValueError
      | PosInf \<Rightarrow> Inr PosInf
      | NaN \<Rightarrow> Inr NaN
      | _ \<Rightarrow> Inl ValueError)"

text \<open>
  One pass of the first loop: the numerator is evaluated before the denominator, the
  quotient has a numpy scalar as its divisor, and a negative rate becomes 0.
\<close>

definition growth_rate :: "double list \<Rightarrow> double list \<Rightarrow> nat \<Rightarrow> error + double" where
  "growth_rate data_list time_list i =
     bind_e (index data_list (i + 1)) (\<lambda>q1.
     bind_e (py_log q1) (\<lambda>l1.
     bind_e (index data_list i) (\<lambda>q0.
     bind_e (py_log q0) (\<lambda>l0.
     bind_e (index time_list (i + 1)) (\<lambda>t1.
     bind_e (index time_list i) (\<lambda>t0.
       let d = fdiv (fsub l1 l0) (fsub t1 t0) in
       Inr (if flt d (Fin 0) then Fin 0 else d)))))))"

fun collect :: "(nat \<Rightarrow> error + 'a) \<Rightarrow> nat list \<Rightarrow> error + 'a list" where
  "collect f [] = Inr []"
| "collect f (i # is) =
     bind_e (f i) (\<lambda>d. bind_e (collect f is) (\<lambda>ds. Inr (d # ds)))"

text \<open>One pass of the second loop.\<close>

definition doubling_time :: "double \<Rightarrow> error + double" where
  "doubling_time r =
     (if fne r (Fin 0) then bind_e (py_log (Fin 2)) (\<lambda>l. Inr (fdiv l r)) else Inr (Fin 0))"

definition GrowthMonitoring_init ::
  "string \<Rightarrow> double list \<Rightarrow> double list \<Rightarrow> error + growth_monitoring" where
  "GrowthMonitoring_init data_name data_list time_list =
     bind_e (collect (growth_rate data_list time_list) [0 ..< length data_list - 1]) (\<lambda>ds.
     bind_e (collect (\<lambda>i. bind_e (index (Fin 0 # ds) i) doubling_time)
               [0 ..< length (Fin 0 # ds)]) (\<lambda>ts.
       Inr \<lparr> g_name = data_name, g_data = data_list, time = time_list,
             package = foldl (\<lambda>d (t, q). dict_set d t q) [] (zip time_list data_list),
             mu = Fin 0 # ds, td = ts \<rparr>))"

section \<open>Properties of units\_combining\<close>

text \<open>
  C9: multiplying the single-token units g and mL gives \<open>g.mL\<close>, dividing g by mL gives
  \<open>g/mL\<close>, and for the operators \<open>+\<close> and \<open>-\<close> the first of the two units is returned
  unchanged.
\<close>

theorem units_combining_single_tokens:
  "units_combining [Some ''g'', Some ''mL''] ''*'' = Inr (Some ''g.mL'')
   \<and> units_combining [Some ''g'', Some ''mL''] ''/'' = Inr (Some ''g/mL'')
   \<and> units_combining [a, b] ''+'' = Inr a
   \<and> units_combining [a, b] ''-'' = Inr a"
proof -
  have "units_combining [Some ''g'', Some ''mL''] ''*'' = Inr (Some ''g.mL'')"
    by code_simp
  moreover have "units_combining [Some ''g'', Some ''mL''] ''/'' = Inr (Some ''g/mL'')"
    by code_simp
  moreover have "units_combining [a, b] ''+'' = Inr a"
    by (simp add: units_combining_def index_def)
  moreover have "units_combining [a, b] ''-'' = Inr a"
    by (simp add: units_combining_def index_def)
  ultimately show ?thesis by blast
qed

lemma split_on_not_Nil: "split_on c xs \<noteq> []"
  by (induction xs) (auto split: list.splits)

lemma split_on_absent: "c \<notin> set xs \<Longrightarrow> split_on c xs = [xs]"
  by (induction xs) auto

lemma split_on_append: "split_on c (xs @ c # ys) = split_on c xs @ split_on c ys"
proof (induction xs)
  case Nil
  then show ?case by simp
next
  case (Cons x xs)
  obtain p ps where p: "split_on c xs = p # ps"
    using split_on_not_Nil[of c xs] by (cases "split_on c xs") auto
  show ?case using Cons p by simp
qed

lemma cancel_div_all:
  "mset d = mset us \<Longrightarrow> cancel_div us (us, d) = Inr ([], [])"
proof (induction us arbitrary: d)
  case Nil
  then show ?case by simp
next
  case (Cons u us)
  from Cons.prems have mem: "u \<in> set d"
    by (metis list.set_intros(1) set_mset_mset)
  from Cons.prems have "mset (remove1 u d) = mset us"
    by simp
  from Cons.IH[OF this] mem show ?case
    by (simp add: py_remove_def bind_e_def)
qed

lemma simplify_message_cancelled:
  assumes "CHR ''/'' \<notin> set p" "CHR ''/'' \<notin> set q"
    and "mset (split_on CHR ''.'' q) = mset (split_on CHR ''.'' p)"
  shows "simplify_message (p @ ''/'' @ q) ''/'' = Inr ''/''"
proof -
  have "split_on CHR ''/'' (p @ ''/'' @ q) = [p, q]"
    using assms(1,2) split_on_append[of "CHR ''/''" p q] by (simp add: split_on_absent)
  then show ?thesis
    using cancel_div_all[OF assms(3)]
    by (simp add: simplify_message_def index_def bind_e_def)
qed

lemma strip_empty_slash: "strip_empty ''/'' = ''''"
  by (simp add: strip_empty_def)

text \<open>
  C8: dividing a unit by itself gives the empty unit string, for a unit without \<open>/\<close> and
  for a unit \<open>X/Y\<close> whose two sides have no \<open>/\<close>.
\<close>

theorem units_combining_self_division:
  "(CHR ''/'' \<notin> set X \<longrightarrow> units_combining [Some X, Some X] ''/'' = Inr (Some ''''))
   \<and> (CHR ''/'' \<notin> set X \<and> CHR ''/'' \<notin> set Y \<longrightarrow>
        units_combining [Some (X @ ''/'' @ Y), Some (X @ ''/'' @ Y)] ''/'' = Inr (Some ''''))"
proof (intro conjI impI)
  assume x: "CHR ''/'' \<notin> set X"
  have "build_message [[X], [X]] ''/'' = Inr (X @ ''/'' @ X)"
    by (simp add: build_message_def)
  moreover have "simplify_message (X @ ''/'' @ X) ''/'' = Inr ''/''"
    using x by (intro simplify_message_cancelled) simp_all
  ultimately show "units_combining [Some X, Some X] ''/'' = Inr (Some '''')"
    using x by (simp add: units_combining_def split_units_def split_on_absent bind_e_def
        strip_empty_slash)
next
  assume "CHR ''/'' \<notin> set X \<and> CHR ''/'' \<notin> set Y"
  then have x: "CHR ''/'' \<notin> set X" and y: "CHR ''/'' \<notin> set Y" by simp_all
  have sp: "split_on CHR ''/'' (X @ ''/'' @ Y) = [X, Y]"
    using x y split_on_append[of "CHR ''/''" X Y] by (simp add: split_on_absent)
  have "build_message [[X, Y], [X, Y]] ''/'' = Inr ((X @ ''.'' @ Y) @ ''/'' @ (Y @ ''.'' @ X))"
    by (simp add: build_message_def)
  moreover have "simplify_message ((X @ ''.'' @ Y) @ ''/'' @ (Y @ ''.'' @ X)) ''/'' = Inr ''/''"
  proof (rule simplify_message_cancelled)
    show "CHR ''/'' \<notin> set (X @ ''.'' @ Y)" using x y by simp
    show "CHR ''/'' \<notin> set (Y @ ''.'' @ X)" using x y by simp
    show "mset (split_on CHR ''.'' (Y @ ''.'' @ X)) = mset (split_on CHR ''.'' (X @ ''.'' @ Y))"
      using split_on_append[of "CHR ''.''" X Y] split_on_append[of "CHR ''.''" Y X]
      by simp
  qed
  ultimately show
    "units_combining [Some (X @ ''/'' @ Y), Some (X @ ''/'' @ Y)] ''/'' = Inr (Some '''')"
    using sp by (simp add: units_combining_def split_units_def bind_e_def strip_empty_slash)
qed

theorem units_combining_self_division_witness:
  "units_combining [Some ''g'', Some ''g''] ''/'' = Inr (Some '''')
   \<and> units_combining [Some ''g/mL'', Some ''g/mL''] ''/'' = Inr (Some '''')"
  using units_combining_self_division [of "''g''" "''mL''"]
  by simp

lemma split_slash_2: "CHR ''/'' \<notin> set p \<Longrightarrow> CHR ''/'' \<notin> set q \<Longrightarrow>
  split_on CHR ''/'' (p @ ''/'' @ q) = [p, q]"
  using split_on_append[of "CHR ''/''" p q] by (simp add: split_on_absent)

lemma split_dot_2: "CHR ''.'' \<notin> set p \<Longrightarrow> CHR ''.'' \<notin> set q \<Longrightarrow>
  split_on CHR ''.'' (p @ ''.'' @ q) = [p, q]"
  using split_on_append[of "CHR ''.''" p q] by (simp add: split_on_absent)

lemma mixed_product_left:
  assumes "CHR ''/'' \<notin> set X" "CHR ''.'' \<notin> set X" "CHR ''/'' \<notin> set Y" "CHR ''.'' \<notin> set Y"
    "CHR ''/'' \<notin> set B" "CHR ''.'' \<notin> set B"
  shows "units_combining [Some (X @ ''/'' @ Y), Some B] ''*'' = Inl IndexError"
proof -
  have b: "build_message [[X, Y], [B]] ''*'' = Inr ((X @ ''.'' @ B) @ ''/'' @ Y)"
    by (simp add: build_message_def)
  have "split_on CHR ''/'' ((X @ ''.'' @ B) @ ''/'' @ Y) = [X @ ''.'' @ B, Y]"
    using assms by (intro split_slash_2) simp_all
  then have "simplify_message ((X @ ''.'' @ B) @ ''/'' @ Y) ''*'' = Inl IndexError"
    using assms split_dot_2[of X B]
    by (simp add: simplify_message_def index_def bind_e_def split_on_absent)
  then show ?thesis
    using assms b split_slash_2[of X Y]
    by (simp add: units_combining_def split_units_def bind_e_def split_on_absent)
qed

lemma mixed_product_right:
  assumes "CHR ''/'' \<notin> set X" "CHR ''.'' \<notin> set X" "CHR ''/'' \<notin> set Y" "CHR ''.'' \<notin> set Y"
    "CHR ''/'' \<notin> set B" "CHR ''.'' \<notin> set B"
  shows "units_combining [Some B, Some (X @ ''/'' @ Y)] ''*'' = Inl IndexError"
proof -
  have b: "build_message [[B], [X, Y]] ''*'' = Inr ((B @ ''.'' @ X) @ ''/'' @ Y)"
    by (simp add: build_message_def)
  have "split_on CHR ''/'' ((B @ ''.'' @ X) @ ''/'' @ Y) = [B @ ''.'' @ X, Y]"
    using assms by (intro split_slash_2) simp_all
  then have "simplify_message ((B @ ''.'' @ X) @ ''/'' @ Y) ''*'' = Inl IndexError"
    using assms split_dot_2[of B X]
    by (simp add: simplify_message_def index_def bind_e_def split_on_absent)
  then show ?thesis
    using assms b split_slash_2[of X Y]
    by (simp add: units_combining_def split_units_def bind_e_def split_on_absent)
qed

lemma single_token_product:
  assumes "CHR ''/'' \<notin> set A" "CHR ''.'' \<notin> set A" "CHR ''/'' \<notin> set B" "CHR ''.'' \<notin> set B"
  shows "units_combining [Some A, Some B] ''*'' = Inr (Some (A @ ''.'' @ B))"
proof -
  have b: "build_message [[A], [B]] ''*'' = Inr (A @ ''.'' @ B)"
    by (simp add: build_message_def)
  have s: "split_on CHR ''/'' (A @ ''.'' @ B) = [A @ ''.'' @ B]"
    using assms by (intro split_on_absent) simp
  then have "simplify_message (A @ ''.'' @ B) ''*'' = Inr (A @ ''.'' @ B)"
    using assms split_dot_2[of A B]
    by (simp add: simplify_message_def index_def bind_e_def)
  moreover have "strip_empty (A @ ''.'' @ B) = A @ ''.'' @ B"
    using s by (simp add: strip_empty_def)
  ultimately show ?thesis
    using assms b
    by (simp add: units_combining_def split_units_def bind_e_def split_on_absent)
qed

lemma single_token_quotient_back:
  assumes "CHR ''/'' \<notin> set A" "CHR ''.'' \<notin> set A" "CHR ''/'' \<notin> set B" "CHR ''.'' \<notin> set B"
  shows "units_combining [Some (A @ ''.'' @ B), Some B] ''/'' = Inr (Some A)"
proof -
  have b: "build_message [[A @ ''.'' @ B], [B]] ''/'' = Inr ((A @ ''.'' @ B) @ ''/'' @ B)"
    by (simp add: build_message_def)
  have s: "split_on CHR ''/'' ((A @ ''.'' @ B) @ ''/'' @ B) = [A @ ''.'' @ B, B]"
    using assms by (intro split_slash_2) simp_all
  have c: "cancel_div [A, B] ([A, B], [B]) = Inr ([A], [])"
    by (simp add: py_remove_def bind_e_def)
  have "simplify_message ((A @ ''.'' @ B) @ ''/'' @ B) ''/'' = Inr (A @ ''/'')"
    using assms s c split_dot_2[of A B]
    by (simp add: simplify_message_def index_def bind_e_def split_on_absent)
  moreover have "strip_empty (A @ ''/'') = A"
    using assms split_on_append[of "CHR ''/''" A "[]"]
    by (simp add: strip_empty_def split_on_absent)
  moreover have "split_on CHR ''/'' (A @ ''.'' @ B) = [A @ ''.'' @ B]"
    using assms by (intro split_on_absent) simp
  ultimately show ?thesis
    using assms b
    by (simp add: units_combining_def split_units_def bind_e_def split_on_absent)
qed

text \<open>
  The round trip, multiply by B and divide the product by B, holds for two units that are
  single tokens.
\<close>

lemma units_combining_round_trip_single_tokens:
  assumes "CHR ''/'' \<notin> set A" "CHR ''.'' \<notin> set A" "CHR ''/'' \<notin> set B" "CHR ''.'' \<notin> set B"
  shows "\<exists>r. units_combining [Some A, Some B] ''*'' = Inr r
           \<and> units_combining [r, Some B] ''/'' = Inr (Some A)"
  using single_token_product[OF assms] single_token_quotient_back[OF assms] by simp

text \<open>
  C2: the round trip cannot start when exactly one of the two units has a denominator.
  For tokens X, Y and B (strings without \<open>/\<close> and \<open>.\<close>) the product of \<open>X/Y\<close> and \<open>B\<close>, in
  either order, is not a unit but an IndexError, raised by the read of \<open>units[1][1]\<close> in
  the cancelling loop of the multiplication.
\<close>

theorem units_combining_mixed_product_raises:
  assumes "CHR ''/'' \<notin> set X" "CHR ''.'' \<notin> set X" "CHR ''/'' \<notin> set Y" "CHR ''.'' \<notin> set Y"
    "CHR ''/'' \<notin> set B" "CHR ''.'' \<notin> set B"
  shows "units_combining [Some (X @ ''/'' @ Y), Some B] ''*'' = Inl IndexError
         \<and> units_combining [Some B, Some (X @ ''/'' @ Y)] ''*'' = Inl IndexError"
  using mixed_product_left[OF assms] mixed_product_right[OF assms] by simp

theorem units_combining_mixed_product_raises_witness:
  "units_combining [Some ''g/mL'', Some ''mL''] ''*'' = Inl IndexError
   \<and> units_combining [Some ''g'', Some ''mL/s''] ''*'' = Inl IndexError"
  using units_combining_mixed_product_raises [of "''g''" "''mL''" "''mL''"]
    units_combining_mixed_product_raises [of "''mL''" "''s''" "''g''"]
  by simp

section \<open>Properties of Denombrement\<close>

lemma ufcs_none_qualify:
  "list_all (\<lambda>entry. case snd entry of None \<Rightarrow> True | Some u \<Rightarrow> u < 30 \<or> 600 < u) ds
   \<Longrightarrow> ufcs ds = []"
  by (induction ds rule: ufcs.induct) (auto split: option.splits)

text \<open>
  C1, as stated, fails: of the dilutions \<open>{-5: 354, -6: 35, -7: 3}\<close> two counts lie in the
  window, 354 and 35, and with the arithmetic mean the first component of the result is
  \<open>352 * 10^5\<close>, not \<open>354 * 10^5\<close>.
\<close>

theorem get_ufc_per_ml_example_two_counts:
  "ufcs [(-5, Some 354), (-6, Some 35), (-7, Some 3)] = [354 * 10 ^ 5, 35 * 10 ^ 6]
   \<and> map_sum id fst (get_ufc_per_ml textbook
        \<lparr>dilutions = [(-5, Some 354), (-6, Some 35), (-7, Some 3)], d_name = ''E. coli''\<rparr>)
      = Inr (352 * 10 ^ 5)"
  by (simp add: pow10_def get_ufc_per_ml_def textbook_def bind_e_def arith_mean_def)

text \<open>
  C1, amended: for the dilutions \<open>{-5: 354, -6: 35, -7: 3}\<close> the counts 354 and 35 lie in
  the window and 3 does not; \<open>get_ufc_per_ml\<close> hands the values \<open>354 * 10^5\<close> and
  \<open>35 * 10^6\<close> to mean and std and returns their results, and the arithmetic mean of the
  two values is \<open>352 * 10^5\<close>.
\<close>

theorem get_ufc_per_ml_example:
  "ufcs [(-5, Some 354), (-6, Some 35), (-7, Some 3)] = [354 * 10 ^ 5, 35 * 10 ^ 6]
   \<and> get_ufc_per_ml c \<lparr>dilutions = [(-5, Some 354), (-6, Some 35), (-7, Some 3)], d_name = n\<rparr>
      = bind_e (mean_of c [354 * 10 ^ 5, 35 * 10 ^ 6]) (\<lambda>m.
        bind_e (std_of c [354 * 10 ^ 5, 35 * 10 ^ 6]) (\<lambda>s. Inr (m, s)))
   \<and> arith_mean [354 * 10 ^ 5, 35 * 10 ^ 6] = 352 * 10 ^ 5"
  by (simp add: pow10_def get_ufc_per_ml_def arith_mean_def)

text \<open>
  C4, as stated, fails: with no qualifying entry and reductions that do not raise on the
  empty sequence, \<open>get_ufc_per_ml\<close> returns a pair of numbers.
\<close>

theorem get_ufc_per_ml_empty_returns:
  "get_ufc_per_ml textbook
     \<lparr>dilutions = [(-4, None), (-6, Some 700), (-7, Some 3)], d_name = ''E. coli''\<rparr>
   = Inr (0, 0)"
  by (simp add: get_ufc_per_ml_def textbook_def bind_e_def arith_mean_def pop_std_def)

text \<open>
  C4, amended: when every entry is not countable or has a count outside the window,
  \<open>get_ufc_per_ml\<close> makes no check of its own: it calls mean and std on the empty
  sequence, and returns the pair of their results or raises what they raise.
\<close>

theorem get_ufc_per_ml_no_guard:
  assumes "list_all (\<lambda>entry. case snd entry of None \<Rightarrow> True | Some u \<Rightarrow> u < 30 \<or> 600 < u)
             (dilutions self)"
  shows "get_ufc_per_ml c self
         = bind_e (mean_of c []) (\<lambda>m. bind_e (std_of c []) (\<lambda>s. Inr (m, s)))"
  using ufcs_none_qualify[OF assms] by (simp add: get_ufc_per_ml_def)

theorem get_ufc_per_ml_no_guard_witness:
  "list_all (\<lambda>entry. case snd entry of None \<Rightarrow> True | Some u \<Rightarrow> u < 30 \<or> 600 < u)
     (dilutions
      \<lparr>dilutions = [(-4, None), (-6, Some 20), (-7, Some 601)], d_name = ''E. coli''\<rparr>)
   \<and> get_ufc_per_ml textbook
        \<lparr>dilutions = [(-4, None), (-6, Some 20), (-7, Some 601)], d_name = ''E. coli''\<rparr>
      = Inr (0, 0)"
proof -
  have h: "list_all (\<lambda>entry. case snd entry of None \<Rightarrow> True | Some u \<Rightarrow> u < 30 \<or> 600 < u)
     (dilutions
      \<lparr>dilutions = [(-4, None), (-6, Some 20), (-7, Some 601)], d_name = ''E. coli''\<rparr>)"
    by simp
  show ?thesis
    using h get_ufc_per_ml_no_guard [OF h, of textbook]
    by (simp add: textbook_def bind_e_def arith_mean_def pop_std_def)
qed

section \<open>Properties of the rounding\<close>

lemma pow2_powr: "pow2 e = 2 powr (of_int e)"
proof (cases "0 \<le> e")
  case True
  then have "real_of_int e = real (nat e)" by simp
  then have "2 powr (of_int e) = (2::real) ^ nat e"
    by (simp only: powr_realpow zero_less_numeral)
  then show ?thesis using True by (simp add: pow2_def)
next
  case False
  then have "real_of_int e = - real (nat (- e))" by simp
  then have "2 powr (of_int e) = inverse ((2::real) powr real (nat (- e)))"
    by (simp only: powr_minus)
  also have "\<dots> = inverse (2 ^ nat (- e))"
    by (simp only: powr_realpow zero_less_numeral)
  finally show ?thesis using False by (simp add: pow2_def inverse_eq_divide)
qed

lemma pow2_pos: "0 < pow2 e"
  by (simp add: pow2_powr)

lemma pow2_add: "pow2 (a + b) = pow2 a * pow2 b"
  by (simp add: pow2_powr powr_add)

lemma pow2_mono: "a \<le> b \<Longrightarrow> pow2 a \<le> pow2 b"
  by (simp add: pow2_powr)

lemma pow2_less: "a < b \<Longrightarrow> pow2 a < pow2 b"
  by (simp add: pow2_powr)

lemma pow2_nat: "0 \<le> e \<Longrightarrow> pow2 e = 2 ^ nat e"
  by (simp add: pow2_def)

lemma expo_bounds:
  assumes "x \<noteq> 0"
  shows "pow2 (expo x) \<le> \<bar>x\<bar>" and "\<bar>x\<bar> < pow2 (expo x + 1)"
proof -
  have "pow2 (expo x) \<le> \<bar>x\<bar> \<and> \<bar>x\<bar> < pow2 (expo x + 1)"
  proof (cases "1 \<le> \<bar>x\<bar>")
    case True
    define n where "n = \<lfloor>\<bar>x\<bar>\<rfloor>"
    have n1: "1 \<le> n" using True by (simp add: n_def le_floor_iff)
    then have bb: "2 ^ nat (bitlen n - 1) \<le> n" "n < 2 ^ nat (bitlen n)"
      using bitlen_bounds [of n] by simp_all
    have b1: "1 \<le> bitlen n"
    proof (rule ccontr)
      assume "\<not> 1 \<le> bitlen n"
      then have "nat (bitlen n) = 0" by simp
      then show False using bb(2) n1 by simp
    qed
    have e: "expo x = bitlen n - 1" using True by (simp add: expo_def n_def)
    have "pow2 (bitlen n - 1) = of_int (2 ^ nat (bitlen n - 1))"
      using b1 by (simp add: pow2_nat)
    also have "\<dots> \<le> of_int n" using bb(1) by (simp only: of_int_le_iff)
    also have "\<dots> \<le> \<bar>x\<bar>" by (simp add: n_def)
    finally have lo: "pow2 (expo x) \<le> \<bar>x\<bar>" by (simp add: e)
    have "n + 1 \<le> 2 ^ nat (bitlen n)" using bb(2) by simp
    then have "real_of_int (n + 1) \<le> of_int (2 ^ nat (bitlen n))"
      by (simp only: of_int_le_iff)
    moreover have "\<bar>x\<bar> < real_of_int (n + 1)" by (simp add: n_def)
    ultimately have "\<bar>x\<bar> < of_int (2 ^ nat (bitlen n))" by linarith
    also have "\<dots> = pow2 (bitlen n)" using b1 by (simp add: pow2_nat)
    finally have hi: "\<bar>x\<bar> < pow2 (expo x + 1)" by (simp add: e)
    show ?thesis using lo hi by simp
  next
    case False
    define y where "y = 1 / \<bar>x\<bar>"
    define n where "n = \<lceil>y\<rceil> - 1"
    have xpos: "0 < \<bar>x\<bar>" using assms by simp
    have y1: "1 < y" using False xpos by (simp add: y_def)
    have x_y: "\<bar>x\<bar> = 1 / y" by (simp add: y_def)
    have "1 < \<lceil>y\<rceil>" using y1 by (simp add: less_ceiling_iff)
    then have n1: "1 \<le> n" by (simp add: n_def)
    then have bb: "2 ^ nat (bitlen n - 1) \<le> n" "n < 2 ^ nat (bitlen n)"
      using bitlen_bounds [of n] by simp_all
    have b1: "1 \<le> bitlen n"
    proof (rule ccontr)
      assume "\<not> 1 \<le> bitlen n"
      then have "nat (bitlen n) = 0" by simp
      then show False using bb(2) n1 by simp
    qed
    have e: "expo x = - bitlen n" using False by (simp add: expo_def n_def y_def)
    have ny: "real_of_int n < y" "y \<le> real_of_int n + 1"
      using ceiling_correct [of y] by (simp_all add: n_def)
    have "n + 1 \<le> 2 ^ nat (bitlen n)" using bb(2) by simp
    then have "real_of_int (n + 1) \<le> of_int (2 ^ nat (bitlen n))"
      by (simp only: of_int_le_iff)
    then have "y \<le> 2 ^ nat (bitlen n)" using ny(2) by simp
    then have "1 / 2 ^ nat (bitlen n) \<le> 1 / y"
      using y1 by (intro divide_left_mono) simp_all
    moreover have "pow2 (- bitlen n) = 1 / 2 ^ nat (bitlen n)"
      using b1 by (simp add: pow2_def)
    ultimately have lo: "pow2 (expo x) \<le> \<bar>x\<bar>" by (simp add: e x_y)
    have "real_of_int (2 ^ nat (bitlen n - 1)) \<le> of_int n"
      using bb(1) by (simp only: of_int_le_iff)
    then have "real_of_int (2 ^ nat (bitlen n - 1)) < y" using ny(1) by linarith
    then have "2 ^ nat (bitlen n - 1) < y" by simp
    then have "1 / y < 1 / 2 ^ nat (bitlen n - 1)"
      using y1 by (intro divide_strict_left_mono) simp_all
    moreover have "pow2 (- bitlen n + 1) = 1 / 2 ^ nat (bitlen n - 1)"
    proof (cases "bitlen n = 1")
      case True
      then show ?thesis by (simp add: pow2_def)
    next
      case False
      then have "- bitlen n + 1 < 0" using b1 by simp
      moreover have "nat (- (- bitlen n + 1)) = nat (bitlen n - 1)" by simp
      ultimately show ?thesis by (simp add: pow2_def)
    qed
    ultimately have hi: "\<bar>x\<bar> < pow2 (expo x + 1)" by (simp add: e x_y)
    show ?thesis using lo hi by simp
  qed
  then show "pow2 (expo x) \<le> \<bar>x\<bar>" and "\<bar>x\<bar> < pow2 (expo x + 1)" by simp_all
qed

lemma expo_unique:
  assumes "pow2 e \<le> \<bar>x\<bar>" "\<bar>x\<bar> < pow2 (e + 1)"
  shows "expo x = e"
proof -
  have x0: "x \<noteq> 0" using assms(1) pow2_pos [of e] by auto
  note b = expo_bounds [OF x0]
  have "\<not> expo x < e"
  proof
    assume "expo x < e"
    then have "pow2 (expo x + 1) \<le> pow2 e" by (intro pow2_mono) simp
    then show False using b(2) assms(1) by linarith
  qed
  moreover have "\<not> e < expo x"
  proof
    assume "e < expo x"
    then have "pow2 (e + 1) \<le> pow2 (expo x)" by (intro pow2_mono) simp
    then show False using b(1) assms(2) by linarith
  qed
  ultimately show ?thesis by simp
qed

lemma round_even_near:
  assumes "\<bar>y - of_int m\<bar> < 1 / 2"
  shows "round_even y = m"
proof (cases "of_int m \<le> y")
  case True
  then have "\<lfloor>y\<rfloor> = m" using assms by (intro floor_unique) linarith+
  then show ?thesis using assms True by (simp add: round_even_def Let_def)
next
  case False
  have "real_of_int (m - 1) \<le> y" "y < real_of_int (m - 1) + 1"
    using assms False by (simp_all add: abs_less_iff)
  then have f: "\<lfloor>y\<rfloor> = m - 1" by (rule floor_unique)
  have "1 / 2 < y - of_int (m - 1)" using assms False by (simp add: abs_less_iff)
  then show ?thesis using f by (simp add: round_even_def Let_def)
qed

lemma round_even_bounds:
  "real_of_int (round_even y) \<le> y + 1" "y - 1 \<le> real_of_int (round_even y)"
  by (simp_all add: round_even_def Let_def) linarith+

lemma round_even_ge:
  assumes "of_int k \<le> y"
  shows "k \<le> round_even y"
proof -
  have "k \<le> \<lfloor>y\<rfloor>" using assms by (simp add: le_floor_iff)
  then show ?thesis by (simp add: round_even_def Let_def)
qed

lemma to_double_not_NaN: "to_double x \<noteq> NaN"
  by (simp add: to_double_def Let_def)

lemma quantum_pos: "0 < quantum x"
  by (simp add: quantum_def pow2_pos)

lemma quantum_le:
  assumes "pow2 (- 1074) \<le> \<bar>x\<bar>"
  shows "quantum x \<le> \<bar>x\<bar>"
proof (cases "- 1022 \<le> expo x")
  case True
  have x0: "x \<noteq> 0" using assms pow2_pos [of "- 1074"] by auto
  have "quantum x = pow2 (expo x - 52)" using True by (simp add: quantum_def max_def)
  also have "\<dots> \<le> pow2 (expo x)" by (rule pow2_mono) simp
  also have "\<dots> \<le> \<bar>x\<bar>" using x0 by (rule expo_bounds)
  finally show ?thesis .
next
  case False
  then have "quantum x = pow2 (- 1074)" by (simp add: quantum_def max_def)
  then show ?thesis using assms by simp
qed

lemma quantum_le_bound:
  assumes "\<bar>x\<bar> \<le> B" "1 \<le> B" "x \<noteq> 0"
  shows "quantum x \<le> B"
proof (cases "- 1022 \<le> expo x")
  case True
  have "quantum x = pow2 (expo x - 52)" using True by (simp add: quantum_def max_def)
  also have "\<dots> \<le> pow2 (expo x)" by (rule pow2_mono) simp
  also have "\<dots> \<le> \<bar>x\<bar>" using assms(3) by (rule expo_bounds)
  finally show ?thesis using assms(1) by simp
next
  case False
  then have "quantum x = pow2 (- 1074)" by (simp add: quantum_def max_def)
  also have "\<dots> \<le> pow2 0" by (rule pow2_mono) simp
  also have "\<dots> = 1" by (simp add: pow2_def)
  finally show ?thesis using assms(2) by simp
qed

lemma to_double_pos:
  assumes "pow2 (- 1074) \<le> x"
  shows "to_double x = PosInf \<or> (\<exists>r>0. to_double x = Fin r)"
proof -
  have xpos: "0 < x" using assms pow2_pos [of "- 1074"] by linarith
  have "quantum x \<le> x" using quantum_le [of x] assms xpos by simp
  then have "1 \<le> \<bar>x\<bar> / quantum x" using quantum_pos [of x] xpos by simp
  then have "1 \<le> round_even (\<bar>x\<bar> / quantum x)" by (intro round_even_ge) simp
  then have m: "0 < round_even (\<bar>x\<bar> / quantum x)" by simp
  then have "0 < real_of_int (round_even (\<bar>x\<bar> / quantum x)) * quantum x"
    using quantum_pos [of x] by simp
  then show ?thesis using xpos m by (simp add: to_double_def Let_def)
qed

lemma to_double_finite:
  assumes "\<bar>x\<bar> \<le> B" "1 \<le> B" "2 * B < pow2 1024"
  shows "\<exists>r. \<bar>r\<bar> \<le> 2 * B \<and> (to_double x = Fin r \<or> to_double x = NegZero)"
proof (cases "x = 0")
  case True
  then show ?thesis using assms(2) by (simp add: to_double_def)
next
  case False
  define m where "m = round_even (\<bar>x\<bar> / quantum x)"
  define r where "r = real_of_int m * quantum x"
  have q: "0 < quantum x" by (rule quantum_pos)
  have "0 \<le> \<bar>x\<bar> / quantum x" using q by simp
  then have m0: "0 \<le> m" unfolding m_def by (intro round_even_ge) simp
  have "real_of_int m \<le> \<bar>x\<bar> / quantum x + 1" unfolding m_def by (rule round_even_bounds)
  then have "r \<le> (\<bar>x\<bar> / quantum x + 1) * quantum x"
    unfolding r_def using q by (intro mult_right_mono) simp_all
  also have "\<dots> = \<bar>x\<bar> + quantum x" using q by (simp add: field_simps)
  also have "\<dots> \<le> 2 * B" using quantum_le_bound [OF assms(1,2) False] assms(1) by simp
  finally have rB: "r \<le> 2 * B" .
  have r0: "0 \<le> r" unfolding r_def using m0 q by simp
  have no: "\<not> pow2 1024 \<le> r" using rB assms(3) by simp
  have td: "to_double x =
     (if pow2 1024 \<le> r then (if x < 0 then NegInf else PosInf)
      else if m = 0 then (if x < 0 then NegZero else Fin 0)
      else Fin (if x < 0 then - r else r))"
    unfolding to_double_def Let_def m_def r_def using False by (simp only: if_False)
  show ?thesis
  proof (cases "m = 0")
    case True
    then have "to_double x = Fin 0 \<or> to_double x = NegZero"
      using no by (simp add: td)
    then show ?thesis using assms(2) by (intro exI [of _ 0]) simp
  next
    case m: False
    show ?thesis
    proof (cases "x < 0")
      case True
      then have "to_double x = Fin (- r)" using no m by (simp add: td)
      then show ?thesis using rB r0 by (intro exI [of _ "- r"]) simp
    next
      case neg: False
      then have "to_double x = Fin r" using no m by (simp add: td)
      then show ?thesis using rB r0 by (intro exI [of _ r]) simp
    qed
  qed
qed

lemma representable_grid:
  assumes "representable r"
  shows "\<exists>k::int. r = of_int k * pow2 (- 1074)"
proof (cases "r = 0")
  case True
  then show ?thesis by (intro exI [of _ 0]) simp
next
  case False
  define E where "E = max (expo r) (- 1022)"
  define n where "n = \<lfloor>\<bar>r\<bar> / quantum r\<rfloor>"
  have q: "quantum r = pow2 (E - 52)" by (simp add: quantum_def E_def)
  have "of_int n = \<bar>r\<bar> / quantum r" using assms False by (simp add: representable_def n_def)
  then have r: "\<bar>r\<bar> = of_int n * quantum r" using quantum_pos [of r] by (simp add: field_simps)
  have "pow2 (E - 52) = pow2 (E + 1022) * pow2 (- 1074)"
    using pow2_add [of "E + 1022" "- 1074"] by simp
  moreover have "pow2 (E + 1022) = of_int (2 ^ nat (E + 1022))"
    by (simp add: pow2_nat E_def)
  ultimately have "\<bar>r\<bar> = of_int (n * 2 ^ nat (E + 1022)) * pow2 (- 1074)"
    using r q by simp
  then show ?thesis
  proof (cases "r < 0")
    case True
    assume a: "\<bar>r\<bar> = of_int (n * 2 ^ nat (E + 1022)) * pow2 (- 1074)"
    then have "r = of_int (- (n * 2 ^ nat (E + 1022))) * pow2 (- 1074)" using True by simp
    then show ?thesis by blast
  next
    case False
    assume a: "\<bar>r\<bar> = of_int (n * 2 ^ nat (E + 1022)) * pow2 (- 1074)"
    then have "r = of_int (n * 2 ^ nat (E + 1022)) * pow2 (- 1074)" using False by simp
    then show ?thesis by blast
  qed
qed

lemma representable_less: "representable r \<Longrightarrow> \<bar>r\<bar> < pow2 1024"
  by (auto simp: representable_def pow2_pos)

lemma grid_gap:
  assumes "representable a" "representable b" "b < a"
  shows "pow2 (- 1074) \<le> a - b"
proof -
  obtain k l :: int where a: "a = of_int k * pow2 (- 1074)" and b: "b = of_int l * pow2 (- 1074)"
    using representable_grid [OF assms(1)] representable_grid [OF assms(2)] by blast
  have "real_of_int l * pow2 (- 1074) < real_of_int k * pow2 (- 1074)" using assms(3) a b by simp
  then have "real_of_int l < real_of_int k" using pow2_pos [of "- 1074"] by simp
  then have "l + 1 \<le> k" by simp
  then have "real_of_int (l + 1) \<le> real_of_int k" by (simp only: of_int_le_iff)
  then have "real_of_int (l + 1) * pow2 (- 1074) \<le> real_of_int k * pow2 (- 1074)"
    using pow2_pos [of "- 1074"] by (intro mult_right_mono) simp_all
  then show ?thesis using a b by (simp add: algebra_simps)
qed

lemma to_double_eval:
  assumes "pow2 e \<le> x" "x < pow2 (e + 1)" "- 1022 \<le> e" "e \<le> 1022"
    and "\<bar>x / pow2 (e - 52) - of_int m\<bar> < 1 / 2"
  shows "to_double x = Fin (of_int m * pow2 (e - 52))"
proof -
  have xpos: "0 < x" using assms(1) pow2_pos [of e] by linarith
  have ex: "expo x = e" using assms(1,2) xpos by (intro expo_unique) simp_all
  have q: "quantum x = pow2 (e - 52)" using assms(3) by (simp add: quantum_def ex max_def)
  have m: "round_even (x / pow2 (e - 52)) = m"
    using assms(5) by (rule round_even_near)
  have qpos: "0 < pow2 (e - 52)" by (rule pow2_pos)
  have e1: "pow2 (e + 1) = 2 ^ 53 * pow2 (e - 52)"
  proof -
    have "pow2 (e + 1) = pow2 53 * pow2 (e - 52)"
      using pow2_add [of 53 "e - 52"] by (simp add: add.commute)
    then show ?thesis by (simp add: pow2_def)
  qed
  have e0: "pow2 e = 2 ^ 52 * pow2 (e - 52)"
  proof -
    have "pow2 e = pow2 52 * pow2 (e - 52)" using pow2_add [of 52 "e - 52"] by simp
    then show ?thesis by (simp add: pow2_def)
  qed
  have "x < 2 ^ 53 * pow2 (e - 52)" using assms(2) by (simp only: e1)
  then have "x / pow2 (e - 52) < 2 ^ 53" using qpos by (simp add: field_simps)
  then have "real_of_int m < 2 ^ 53 + 1" using assms(5) by linarith
  then have "real_of_int m < real_of_int (2 ^ 53 + 1)" by simp
  then have "m < 2 ^ 53 + 1" by (simp only: of_int_less_iff)
  then have "m \<le> 2 ^ 53" by simp
  then have "real_of_int m \<le> real_of_int (2 ^ 53)" by (simp only: of_int_le_iff)
  then have "real_of_int m * pow2 (e - 52) \<le> 2 ^ 53 * pow2 (e - 52)"
    using qpos by (intro mult_right_mono) simp_all
  also have "\<dots> = pow2 (e + 1)" by (simp add: e1)
  also have "\<dots> < pow2 1024" using assms(4) by (intro pow2_less) simp
  finally have no: "\<not> pow2 1024 \<le> real_of_int m * pow2 (e - 52)" by simp
  have "2 ^ 52 * pow2 (e - 52) \<le> x" using assms(1) by (simp only: e0)
  then have "2 ^ 52 \<le> x / pow2 (e - 52)" using qpos by (simp add: field_simps)
  moreover have "(1::real) \<le> 2 ^ 52" by simp
  ultimately have "1 \<le> x / pow2 (e - 52)" by linarith
  then have "0 < real_of_int m" using assms(5) by linarith
  then have m0: "m \<noteq> 0" by auto
  show ?thesis using xpos no m0 by (simp add: to_double_def m q Let_def)
qed

lemma representable_eval:
  assumes "pow2 e \<le> \<bar>x\<bar>" "\<bar>x\<bar> < pow2 (e + 1)" "- 1022 \<le> e" "e \<le> 1023"
    and "\<bar>x\<bar> / pow2 (e - 52) = of_int m"
  shows "representable x"
proof -
  have ex: "expo x = e" using assms(1,2) by (rule expo_unique)
  have q: "quantum x = pow2 (e - 52)" using assms(3) by (simp add: quantum_def ex max_def)
  have "pow2 (e + 1) \<le> pow2 1024" using assms(4) by (intro pow2_mono) simp
  then have "\<bar>x\<bar> < pow2 1024" using assms(2) by linarith
  then show ?thesis using assms(5) by (simp add: representable_def q)
qed

lemma fsub_Fin: "a \<noteq> b \<Longrightarrow> fsub (Fin a) (Fin b) = to_double (a - b)"
  by (simp add: fsub_def is_inf_def val_def)

lemma fdiv_Fin: "a \<noteq> 0 \<Longrightarrow> b \<noteq> 0 \<Longrightarrow> fdiv (Fin a) (Fin b) = to_double (a / b)"
  by (simp add: fdiv_def is_inf_def val_def)

section \<open>Bounds on logarithms\<close>

text \<open>
  Enclosures of \<open>ln 2\<close>, \<open>ln 100\<close> and \<open>ln 200\<close> narrow enough to round them: the exponential
  of a small argument is enclosed by its Taylor polynomial of degree 7 in Horner form, and
  squared as often as needed, every square rounded outwards to a multiple of \<open>2 ** -80\<close>.
\<close>

lemma exp_upper:
  fixes x :: real
  assumes "0 \<le> x" "x \<le> 1"
  shows "exp x \<le> (\<Sum>m<n. x ^ m / fact m) + 3 * x ^ n / fact n"
proof -
  obtain t where t: "\<bar>t\<bar> \<le> \<bar>x\<bar>" and e: "exp x = (\<Sum>m<n. x ^ m / fact m) + exp t / fact n * x ^ n"
    using Maclaurin_exp_le by blast
  have "exp t \<le> exp 1" using t assms by simp
  also have "\<dots> \<le> 3" by (rule exp_le)
  finally have "exp t \<le> 3" .
  then have "exp t / fact n * x ^ n \<le> 3 / fact n * x ^ n"
    using assms by (intro mult_right_mono divide_right_mono) simp_all
  then show ?thesis using e by simp
qed

lemma exp_lower:
  fixes x :: real
  assumes "0 \<le> x"
  shows "(\<Sum>m<n. x ^ m / fact m) \<le> exp x"
proof -
  obtain t where t: "\<bar>t\<bar> \<le> \<bar>x\<bar>" and e: "exp x = (\<Sum>m<n. x ^ m / fact m) + exp t / fact n * x ^ n"
    using Maclaurin_exp_le by blast
  have "0 \<le> exp t / fact n * x ^ n" using assms by simp
  then show ?thesis using e by simp
qed

lemma exp_upper8:
  fixes x :: real
  assumes "0 \<le> x" "x \<le> 1"
  shows "exp x \<le> 1 + x * (1 + x / 2 * (1 + x / 3 * (1 + x / 4 * (1 + x / 5 *
           (1 + x / 6 * (1 + x / 7 * (1 + 3 * x / 8)))))))"
proof -
  have "exp x \<le> (\<Sum>m<8. x ^ m / fact m) + 3 * x ^ 8 / fact 8"
    using assms by (rule exp_upper)
  also have "\<dots> = 1 + x * (1 + x / 2 * (1 + x / 3 * (1 + x / 4 * (1 + x / 5 *
           (1 + x / 6 * (1 + x / 7 * (1 + 3 * x / 8)))))))"
    by (simp add: lessThan_nat_numeral fact_numeral power_numeral_reduce algebra_simps)
  finally show ?thesis .
qed

lemma exp_lower8:
  fixes x :: real
  assumes "0 \<le> x"
  shows "1 + x * (1 + x / 2 * (1 + x / 3 * (1 + x / 4 * (1 + x / 5 *
           (1 + x / 6 * (1 + x / 7)))))) \<le> exp x"
proof -
  have "1 + x * (1 + x / 2 * (1 + x / 3 * (1 + x / 4 * (1 + x / 5 *
           (1 + x / 6 * (1 + x / 7)))))) = (\<Sum>m<8. x ^ m / fact m)"
    by (simp add: lessThan_nat_numeral fact_numeral power_numeral_reduce algebra_simps)
  also have "\<dots> \<le> exp x" using assms by (rule exp_lower)
  finally show ?thesis .
qed

lemma exp_square_le:
  fixes z :: real
  assumes "exp z \<le> real_of_int n / 2 ^ 80" "n * n \<le> n' * 2 ^ 80" "2 * z = z'"
  shows "exp z' \<le> real_of_int n' / 2 ^ 80"
proof -
  have "exp z' = exp z * exp z" using assms(3) by (simp add: exp_add [symmetric])
  also have "\<dots> \<le> (real_of_int n / 2 ^ 80) * (real_of_int n / 2 ^ 80)"
  proof (rule mult_mono)
    show "0 \<le> real_of_int n / 2 ^ 80" using assms(1) exp_ge_zero [of z] by linarith
  qed (use assms(1) in simp_all)
  also have "\<dots> = real_of_int (n * n) / 2 ^ 80 / 2 ^ 80" by simp
  also have "\<dots> \<le> real_of_int (n' * 2 ^ 80) / 2 ^ 80 / 2 ^ 80"
    using assms(2) by (intro divide_right_mono) (simp_all only: of_int_le_iff zero_le_power zero_le_numeral)
  also have "\<dots> = real_of_int n' / 2 ^ 80" by simp
  finally show ?thesis .
qed

lemma exp_square_ge:
  fixes z :: real
  assumes "real_of_int n / 2 ^ 80 \<le> exp z" "0 \<le> n" "n' * 2 ^ 80 \<le> n * n" "2 * z = z'"
  shows "real_of_int n' / 2 ^ 80 \<le> exp z'"
proof -
  have "real_of_int n' / 2 ^ 80 = real_of_int (n' * 2 ^ 80) / 2 ^ 80 / 2 ^ 80" by simp
  also have "\<dots> \<le> real_of_int (n * n) / 2 ^ 80 / 2 ^ 80"
    using assms(3) by (intro divide_right_mono) (simp_all only: of_int_le_iff zero_le_power zero_le_numeral)
  also have "\<dots> = (real_of_int n / 2 ^ 80) * (real_of_int n / 2 ^ 80)" by simp
  also have "\<dots> \<le> exp z * exp z"
    using assms(1,2) by (intro mult_mono) simp_all
  also have "\<dots> = exp z'" using assms(4) by (simp add: exp_add [symmetric])
  finally show ?thesis .
qed

lemma ln_2_lower: "(418981761686000618846565 / 2 ^ 79 :: real) < ln 2"
proof -
  have e0: "exp (418981761686000618846565 / 2 ^ 87) \<le> real_of_int 1212203550026895909253678 / 2 ^ 80"
    by (rule order_trans [OF exp_upper8]) simp_all
  have e1: "exp (418981761686000618846565 / 2 ^ 86) \<le> real_of_int 1215490167267850712505120 / 2 ^ 80"
    by (rule exp_square_le [OF e0]) simp_all
  have e2: "exp (418981761686000618846565 / 2 ^ 85) \<le> real_of_int 1222090158679699302520841 / 2 ^ 80"
    by (rule exp_square_le [OF e1]) simp_all
  have e3: "exp (418981761686000618846565 / 2 ^ 84) \<le> real_of_int 1235397847998530553952242 / 2 ^ 80"
    by (rule exp_square_le [OF e2]) simp_all
  have e4: "exp (418981761686000618846565 / 2 ^ 83) \<le> real_of_int 1262449538323130217787134 / 2 ^ 80"
    by (rule exp_square_le [OF e3]) simp_all
  have e5: "exp (418981761686000618846565 / 2 ^ 82) \<le> real_of_int 1318342954508437535747265 / 2 ^ 80"
    by (rule exp_square_le [OF e4]) simp_all
  have e6: "exp (418981761686000618846565 / 2 ^ 81) \<le> real_of_int 1437663186196213139380671 / 2 ^ 80"
    by (rule exp_square_le [OF e5]) simp_all
  have e7: "exp (418981761686000618846565 / 2 ^ 80) \<le> real_of_int 1709679290002018427572746 / 2 ^ 80"
    by (rule exp_square_le [OF e6]) simp_all
  have e8: "exp (418981761686000618846565 / 2 ^ 79) \<le> real_of_int 2417851639229258342159312 / 2 ^ 80"
    by (rule exp_square_le [OF e7]) simp_all
  have "exp (418981761686000618846565 / 2 ^ 79 :: real) < 2" using e8 by simp
  then have "ln (exp (418981761686000618846565 / 2 ^ 79 :: real)) < ln 2" by (subst ln_less_cancel_iff) simp_all
  then show ?thesis by simp
qed

lemma ln_2_upper: "ln 2 < (418981761686000622473343 / 2 ^ 79 :: real)"
proof -
  have e0: "real_of_int 1212203550026895909282088 / 2 ^ 80 \<le> exp (418981761686000622473343 / 2 ^ 87)"
    by (rule order_trans [OF _ exp_lower8]) simp_all
  have e1: "real_of_int 1215490167267850712562093 / 2 ^ 80 \<le> exp (418981761686000622473343 / 2 ^ 86)"
    by (rule exp_square_ge [OF e0]) simp_all
  have e2: "real_of_int 1222090158679699302635404 / 2 ^ 80 \<le> exp (418981761686000622473343 / 2 ^ 85)"
    by (rule exp_square_ge [OF e1]) simp_all
  have e3: "real_of_int 1235397847998530554183862 / 2 ^ 80 \<le> exp (418981761686000622473343 / 2 ^ 84)"
    by (rule exp_square_ge [OF e2]) simp_all
  have e4: "real_of_int 1262449538323130218260517 / 2 ^ 80 \<le> exp (418981761686000622473343 / 2 ^ 83)"
    by (rule exp_square_ge [OF e3]) simp_all
  have e5: "real_of_int 1318342954508437536735947 / 2 ^ 80 \<le> exp (418981761686000622473343 / 2 ^ 82)"
    by (rule exp_square_ge [OF e4]) simp_all
  have e6: "real_of_int 1437663186196213141537001 / 2 ^ 80 \<le> exp (418981761686000622473343 / 2 ^ 81)"
    by (rule exp_square_ge [OF e5]) simp_all
  have e7: "real_of_int 1709679290002018432701391 / 2 ^ 80 \<le> exp (418981761686000622473343 / 2 ^ 80)"
    by (rule exp_square_ge [OF e6]) simp_all
  have e8: "real_of_int 2417851639229258356665310 / 2 ^ 80 \<le> exp (418981761686000622473343 / 2 ^ 79)"
    by (rule exp_square_ge [OF e7]) simp_all
  have "2 < exp (418981761686000622473343 / 2 ^ 79 :: real)" using e8 by simp
  then have "ln 2 < ln (exp (418981761686000622473343 / 2 ^ 79 :: real))" by (subst ln_less_cancel_iff) simp_all
  then show ?thesis by simp
qed

lemma ln_100_lower: "(695913642695063453564787 / 2 ^ 77 :: real) < ln 100"
proof -
  have e0: "exp (695913642695063453564787 / 2 ^ 88) \<le> real_of_int 1211647290909712994346833 / 2 ^ 80"
    by (rule order_trans [OF exp_upper8]) simp_all
  have e1: "exp (695913642695063453564787 / 2 ^ 87) \<le> real_of_int 1214374888640256953429302 / 2 ^ 80"
    by (rule exp_square_le [OF e0]) simp_all
  have e2: "exp (695913642695063453564787 / 2 ^ 86) \<le> real_of_int 1219848518604830945691921 / 2 ^ 80"
    by (rule exp_square_le [OF e1]) simp_all
  have e3: "exp (695913642695063453564787 / 2 ^ 85) \<le> real_of_int 1230869904670198822326057 / 2 ^ 80"
    by (rule exp_square_le [OF e2]) simp_all
  have e4: "exp (695913642695063453564787 / 2 ^ 84) \<le> real_of_int 1253212312651057283100017 / 2 ^ 80"
    by (rule exp_square_le [OF e3]) simp_all
  have e5: "exp (695913642695063453564787 / 2 ^ 83) \<le> real_of_int 1299121149617645473073866 / 2 ^ 80"
    by (rule exp_square_le [OF e4]) simp_all
  have e6: "exp (695913642695063453564787 / 2 ^ 82) \<le> real_of_int 1396045757316911388603963 / 2 ^ 80"
    by (rule exp_square_le [OF e5]) simp_all
  have e7: "exp (695913642695063453564787 / 2 ^ 81) \<le> real_of_int 1612128490351720616504033 / 2 ^ 80"
    by (rule exp_square_le [OF e6]) simp_all
  have e8: "exp (695913642695063453564787 / 2 ^ 80) \<le> real_of_int 2149807893285123974732548 / 2 ^ 80"
    by (rule exp_square_le [OF e7]) simp_all
  have e9: "exp (695913642695063453564787 / 2 ^ 79) \<le> real_of_int 3822959112168089767434354 / 2 ^ 80"
    by (rule exp_square_le [OF e8]) simp_all
  have e10: "exp (695913642695063453564787 / 2 ^ 78) \<le> real_of_int 12089258196146291728934639 / 2 ^ 80"
    by (rule exp_square_le [OF e9]) simp_all
  have e11: "exp (695913642695063453564787 / 2 ^ 77) \<le> real_of_int 120892581961462917108075181 / 2 ^ 80"
    by (rule exp_square_le [OF e10]) simp_all
  have "exp (695913642695063453564787 / 2 ^ 77 :: real) < 100" using e11 by simp
  then have "ln (exp (695913642695063453564787 / 2 ^ 77 :: real)) < ln 100" by (subst ln_less_cancel_iff) simp_all
  then show ?thesis by simp
qed

lemma ln_100_upper: "ln 100 < (695913642695063454471483 / 2 ^ 77 :: real)"
proof -
  have e0: "real_of_int 1211647290909712994350382 / 2 ^ 80 \<le> exp (695913642695063454471483 / 2 ^ 88)"
    by (rule order_trans [OF _ exp_lower8]) simp_all
  have e1: "real_of_int 1214374888640256953436415 / 2 ^ 80 \<le> exp (695913642695063454471483 / 2 ^ 87)"
    by (rule exp_square_ge [OF e0]) simp_all
  have e2: "real_of_int 1219848518604830945706211 / 2 ^ 80 \<le> exp (695913642695063454471483 / 2 ^ 86)"
    by (rule exp_square_ge [OF e1]) simp_all
  have e3: "real_of_int 1230869904670198822354894 / 2 ^ 80 \<le> exp (695913642695063454471483 / 2 ^ 85)"
    by (rule exp_square_ge [OF e2]) simp_all
  have e4: "real_of_int 1253212312651057283158737 / 2 ^ 80 \<le> exp (695913642695063454471483 / 2 ^ 84)"
    by (rule exp_square_ge [OF e3]) simp_all
  have e5: "real_of_int 1299121149617645473195607 / 2 ^ 80 \<le> exp (695913642695063454471483 / 2 ^ 83)"
    by (rule exp_square_ge [OF e4]) simp_all
  have e6: "real_of_int 1396045757316911388865610 / 2 ^ 80 \<le> exp (695913642695063454471483 / 2 ^ 82)"
    by (rule exp_square_ge [OF e5]) simp_all
  have e7: "real_of_int 1612128490351720617108323 / 2 ^ 80 \<le> exp (695913642695063454471483 / 2 ^ 81)"
    by (rule exp_square_ge [OF e6]) simp_all
  have e8: "real_of_int 2149807893285123976344214 / 2 ^ 80 \<le> exp (695913642695063454471483 / 2 ^ 80)"
    by (rule exp_square_ge [OF e7]) simp_all
  have e9: "real_of_int 3822959112168089773166338 / 2 ^ 80 \<le> exp (695913642695063454471483 / 2 ^ 79)"
    by (rule exp_square_ge [OF e8]) simp_all
  have e10: "real_of_int 12089258196146291765186888 / 2 ^ 80 \<le> exp (695913642695063454471483 / 2 ^ 78)"
    by (rule exp_square_ge [OF e9]) simp_all
  have e11: "real_of_int 120892581961462917833120160 / 2 ^ 80 \<le> exp (695913642695063454471483 / 2 ^ 77)"
    by (rule exp_square_ge [OF e10]) simp_all
  have "100 < exp (695913642695063454471483 / 2 ^ 77 :: real)" using e11 by simp
  then have "ln 100 < ln (exp (695913642695063454471483 / 2 ^ 77 :: real))" by (subst ln_less_cancel_iff) simp_all
  then show ?thesis by simp
qed

lemma ln_200_lower: "(50041192694785225545611 / 2 ^ 73 :: real) < ln 200"
proof -
  have e0: "exp (50041192694785225545611 / 2 ^ 84) \<le> real_of_int 1212057443274696641241854 / 2 ^ 80"
    by (rule order_trans [OF exp_upper8]) simp_all
  have e1: "exp (50041192694785225545611 / 2 ^ 83) \<le> real_of_int 1215197179150244310331543 / 2 ^ 80"
    by (rule exp_square_le [OF e0]) simp_all
  have e2: "exp (50041192694785225545611 / 2 ^ 82) \<le> real_of_int 1221501071658343637044847 / 2 ^ 80"
    by (rule exp_square_le [OF e1]) simp_all
  have e3: "exp (50041192694785225545611 / 2 ^ 81) \<le> real_of_int 1234207131532776244094413 / 2 ^ 80"
    by (rule exp_square_le [OF e2]) simp_all
  have e4: "exp (50041192694785225545611 / 2 ^ 80) \<le> real_of_int 1260017131582099456311922 / 2 ^ 80"
    by (rule exp_square_le [OF e3]) simp_all
  have e5: "exp (50041192694785225545611 / 2 ^ 79) \<le> real_of_int 1313267651431645966334271 / 2 ^ 80"
    by (rule exp_square_le [OF e4]) simp_all
  have e6: "exp (50041192694785225545611 / 2 ^ 78) \<le> real_of_int 1426615178792828693622636 / 2 ^ 80"
    by (rule exp_square_le [OF e5]) simp_all
  have e7: "exp (50041192694785225545611 / 2 ^ 77) \<le> real_of_int 1683503516378587827557838 / 2 ^ 80"
    by (rule exp_square_le [OF e6]) simp_all
  have e8: "exp (50041192694785225545611 / 2 ^ 76) \<le> real_of_int 2344382131372234741856358 / 2 ^ 80"
    by (rule exp_square_le [OF e7]) simp_all
  have e9: "exp (50041192694785225545611 / 2 ^ 75) \<le> real_of_int 4546290176554777954195375 / 2 ^ 80"
    by (rule exp_square_le [OF e8]) simp_all
  have e10: "exp (50041192694785225545611 / 2 ^ 74) \<le> real_of_int 17096792900020184275744703 / 2 ^ 80"
    by (rule exp_square_le [OF e9]) simp_all
  have e11: "exp (50041192694785225545611 / 2 ^ 73) \<le> real_of_int 241785163922925834216418852 / 2 ^ 80"
    by (rule exp_square_le [OF e10]) simp_all
  have "exp (50041192694785225545611 / 2 ^ 73 :: real) < 200" using e11 by simp
  then have "ln (exp (50041192694785225545611 / 2 ^ 73 :: real)) < ln 200" by (subst ln_less_cancel_iff) simp_all
  then show ?thesis by simp
qed

lemma ln_200_upper: "ln 200 < (800659083116563609636471 / 2 ^ 77 :: real)"
proof -
  have e0: "real_of_int 1212057443274696641245404 / 2 ^ 80 \<le> exp (800659083116563609636471 / 2 ^ 88)"
    by (rule order_trans [OF _ exp_lower8]) simp_all
  have e1: "real_of_int 1215197179150244310338660 / 2 ^ 80 \<le> exp (800659083116563609636471 / 2 ^ 87)"
    by (rule exp_square_ge [OF e0]) simp_all
  have e2: "real_of_int 1221501071658343637059153 / 2 ^ 80 \<le> exp (800659083116563609636471 / 2 ^ 86)"
    by (rule exp_square_ge [OF e1]) simp_all
  have e3: "real_of_int 1234207131532776244123321 / 2 ^ 80 \<le> exp (800659083116563609636471 / 2 ^ 85)"
    by (rule exp_square_ge [OF e2]) simp_all
  have e4: "real_of_int 1260017131582099456370946 / 2 ^ 80 \<le> exp (800659083116563609636471 / 2 ^ 84)"
    by (rule exp_square_ge [OF e3]) simp_all
  have e5: "real_of_int 1313267651431645966457307 / 2 ^ 80 \<le> exp (800659083116563609636471 / 2 ^ 83)"
    by (rule exp_square_ge [OF e4]) simp_all
  have e6: "real_of_int 1426615178792828693889945 / 2 ^ 80 \<le> exp (800659083116563609636471 / 2 ^ 82)"
    by (rule exp_square_ge [OF e5]) simp_all
  have e7: "real_of_int 1683503516378587828188723 / 2 ^ 80 \<le> exp (800659083116563609636471 / 2 ^ 81)"
    by (rule exp_square_ge [OF e6]) simp_all
  have e8: "real_of_int 2344382131372234743613449 / 2 ^ 80 \<le> exp (800659083116563609636471 / 2 ^ 80)"
    by (rule exp_square_ge [OF e7]) simp_all
  have e9: "real_of_int 4546290176554777961010172 / 2 ^ 80 \<le> exp (800659083116563609636471 / 2 ^ 79)"
    by (rule exp_square_ge [OF e8]) simp_all
  have e10: "real_of_int 17096792900020184327000195 / 2 ^ 80 \<le> exp (800659083116563609636471 / 2 ^ 78)"
    by (rule exp_square_ge [OF e9]) simp_all
  have e11: "real_of_int 241785163922925835666143090 / 2 ^ 80 \<le> exp (800659083116563609636471 / 2 ^ 77)"
    by (rule exp_square_ge [OF e10]) simp_all
  have "200 < exp (800659083116563609636471 / 2 ^ 77 :: real)" using e11 by simp
  then have "ln 200 < ln (exp (800659083116563609636471 / 2 ^ 77 :: real))" by (subst ln_less_cancel_iff) simp_all
  then show ?thesis by simp
qed

section \<open>Properties of GrowthMonitoring\<close>

lemma collect_Inr:
  "collect f js = Inr ds \<Longrightarrow>
   length ds = length js \<and> (\<forall>k<length js. f (js ! k) = Inr (ds ! k))"
proof (induction js arbitrary: ds)
  case Nil
  then show ?case by simp
next
  case (Cons j js)
  from Cons.prems obtain d ds' where d: "f j = Inr d" and ds': "collect f js = Inr ds'"
    and ds: "ds = d # ds'"
    by (auto simp: bind_e_def split: sum.splits)
  from Cons.IH[OF ds'] have ih: "length ds' = length js"
    "\<forall>k<length js. f (js ! k) = Inr (ds' ! k)" by simp_all
  show ?case
  proof (intro conjI allI impI)
    show "length ds = length (j # js)" using ih ds by simp
  next
    fix k assume "k < length (j # js)"
    then show "f ((j # js) ! k) = Inr (ds ! k)"
      using d ih ds by (cases k) simp_all
  qed
qed

lemma collect_total:
  "(\<And>j. j \<in> set js \<Longrightarrow> \<exists>d. f j = Inr d) \<Longrightarrow> \<exists>ds. collect f js = Inr ds"
proof (induction js)
  case Nil
  then show ?case by simp
next
  case (Cons j js)
  then obtain d where d: "f j = Inr d" by fastforce
  from Cons obtain ds where ds: "collect f js = Inr ds" by fastforce
  show ?case using d ds by (simp add: bind_e_def)
qed

lemma pow2_1024_large: "8192 \<le> pow2 1024"
proof -
  have "pow2 13 \<le> pow2 1024" by (rule pow2_mono) simp
  then show ?thesis by (simp add: pow2_def)
qed

lemma ln_pow2: "ln (pow2 e) = of_int e * ln 2"
  by (simp add: pow2_powr ln_powr)

lemma representable_0: "representable 0"
  by (simp add: representable_def)

lemma py_log_finite:
  assumes "representable r" "0 < r"
  shows "\<exists>l. py_log (Fin r) = Inr l \<and> l \<noteq> NaN \<and> \<not> is_inf l \<and> \<bar>val l\<bar> \<le> 2148"
proof -
  have lo: "pow2 (- 1074) \<le> r"
    using grid_gap [OF assms(1) representable_0 assms(2)] by simp
  have hi: "r < pow2 1024" using representable_less [OF assms(1)] assms(2) by simp
  have l2: "0 < ln (2::real)" "ln (2::real) < 1" using ln_2_less_1 by simp_all
  have "ln (pow2 (- 1074)) \<le> ln r"
    using lo pow2_pos [of "- 1074"] assms(2) by (subst ln_le_cancel_iff) simp_all
  then have a: "- 1074 \<le> ln r" using l2 by (simp add: ln_pow2)
  have "ln r < ln (pow2 1024)"
    using hi pow2_pos [of 1024] assms(2) by (subst ln_less_cancel_iff) simp_all
  then have b: "ln r \<le> 1074" using l2 by (simp add: ln_pow2)
  have "\<bar>ln r\<bar> \<le> 1074" using a b by simp
  moreover have "2 * 1074 < pow2 1024" using pow2_1024_large by simp
  ultimately obtain l where l: "\<bar>l\<bar> \<le> 2 * 1074"
    "to_double (ln r) = Fin l \<or> to_double (ln r) = NegZero"
    using to_double_finite [of "ln r" 1074] by auto
  have p: "py_log (Fin r) = Inr (to_double (ln r))" using assms(2) by (simp add: py_log_def)
  from l(2) show ?thesis
  proof
    assume "to_double (ln r) = Fin l"
    then show ?thesis using l(1) p by (simp add: is_inf_def val_def)
  next
    assume "to_double (ln r) = NegZero"
    then show ?thesis using p by (simp add: is_inf_def val_def)
  qed
qed

lemma positive_double:
  assumes "flt (Fin 0) x" "\<not> is_inf x" "is_double x"
  obtains r where "x = Fin r" "0 < r" "representable r"
  using assms by (cases x) (simp_all add: flt_def is_inf_def is_double_def val_def)

lemma fsub_finite:
  assumes "x \<noteq> NaN" "\<not> is_inf x" "y \<noteq> NaN" "\<not> is_inf y"
    and "\<bar>val x\<bar> \<le> B" "\<bar>val y\<bar> \<le> B" "1 \<le> B" "4 * B < pow2 1024"
  shows "fsub x y \<noteq> NaN \<and> \<not> is_inf (fsub x y)"
proof (cases "val x - val y = 0")
  case True
  then show ?thesis using assms(1-4) by (simp add: fsub_def is_inf_def)
next
  case False
  have "\<bar>val x - val y\<bar> \<le> 2 * B" using assms(5,6) by linarith
  moreover have "1 \<le> 2 * B" "2 * (2 * B) < pow2 1024" using assms(7,8) by simp_all
  ultimately obtain r where
    "to_double (val x - val y) = Fin r \<or> to_double (val x - val y) = NegZero"
    using to_double_finite [of "val x - val y" "2 * B"] by blast
  moreover have "fsub x y = to_double (val x - val y)"
    using False assms(1-4) by (simp add: fsub_def)
  ultimately show ?thesis by (auto simp: is_inf_def)
qed

lemma is_double_val: "is_double x \<Longrightarrow> representable (val x)"
  by (cases x) (simp_all add: is_double_def val_def representable_0)

lemma fsub_increasing:
  assumes "flt t0 t1" "is_double t0" "is_double t1"
  shows "fsub t1 t0 = PosInf \<or> (\<exists>d>0. fsub t1 t0 = Fin d)"
proof (cases "is_inf t0 \<or> is_inf t1")
  case True
  then show ?thesis using assms(1)
    by (auto simp: flt_def fsub_def is_inf_def signed_inf_def sign_bit_def split: if_splits)
next
  case False
  then have fin: "\<not> is_inf t0" "\<not> is_inf t1" by simp_all
  have nn: "t0 \<noteq> NaN" "t1 \<noteq> NaN" using assms(1) by (simp_all add: flt_def)
  have lt: "val t0 < val t1"
    using assms(1) fin by (simp add: flt_def is_inf_def split: if_splits)
  have "pow2 (- 1074) \<le> val t1 - val t0"
    using grid_gap [OF is_double_val [OF assms(3)] is_double_val [OF assms(2)] lt] .
  then have "to_double (val t1 - val t0) = PosInf \<or> (\<exists>r>0. to_double (val t1 - val t0) = Fin r)"
    by (rule to_double_pos)
  moreover have "fsub t1 t0 = to_double (val t1 - val t0)"
    using lt fin nn by (simp add: fsub_def)
  ultimately show ?thesis by simp
qed

lemma fdiv_not_NaN:
  assumes "x \<noteq> NaN" "\<not> is_inf x" "y = PosInf \<or> (\<exists>d>0. y = Fin d)"
  shows "fdiv x y \<noteq> NaN"
  using assms
  by (auto simp: fdiv_def Let_def is_inf_def val_def signed_zero_def to_double_not_NaN)

lemma doubling_time_returns: "\<exists>t. doubling_time r = Inr t"
  by (simp add: doubling_time_def py_log_def bind_e_def)

lemma growth_rate_value:
  assumes i: "i + 1 < length data_list" and len: "length time_list = length data_list"
    and q0: "flt (Fin 0) (data_list ! i)" "\<not> is_inf (data_list ! i)" "is_double (data_list ! i)"
    and q1: "flt (Fin 0) (data_list ! (i + 1))" "\<not> is_inf (data_list ! (i + 1))"
      "is_double (data_list ! (i + 1))"
    and t: "flt (time_list ! i) (time_list ! (i + 1))"
      "is_double (time_list ! i)" "is_double (time_list ! (i + 1))"
  shows "\<exists>l1 l0. py_log (data_list ! (i + 1)) = Inr l1 \<and> py_log (data_list ! i) = Inr l0
           \<and> fdiv (fsub l1 l0) (fsub (time_list ! (i + 1)) (time_list ! i)) \<noteq> NaN
           \<and> growth_rate data_list time_list i =
               Inr (let d = fdiv (fsub l1 l0) (fsub (time_list ! (i + 1)) (time_list ! i))
                    in if flt d (Fin 0) then Fin 0 else d)"
proof -
  obtain r0 where r0: "data_list ! i = Fin r0" "0 < r0" "representable r0"
    using q0 by (rule positive_double)
  obtain r1 where r1: "data_list ! (i + 1) = Fin r1" "0 < r1" "representable r1"
    using q1 by (rule positive_double)
  obtain l0 where l0: "py_log (Fin r0) = Inr l0" "l0 \<noteq> NaN" "\<not> is_inf l0" "\<bar>val l0\<bar> \<le> 2148"
    using py_log_finite [OF r0(3,2)] by blast
  obtain l1 where l1: "py_log (Fin r1) = Inr l1" "l1 \<noteq> NaN" "\<not> is_inf l1" "\<bar>val l1\<bar> \<le> 2148"
    using py_log_finite [OF r1(3,2)] by blast
  have "4 * 2148 < pow2 1024"
  proof -
    have "pow2 14 \<le> pow2 1024" by (rule pow2_mono) simp
    then show ?thesis by (simp add: pow2_def)
  qed
  then have num: "fsub l1 l0 \<noteq> NaN \<and> \<not> is_inf (fsub l1 l0)"
    using l0 l1 by (intro fsub_finite [where B = 2148]) simp_all
  have den: "fsub (time_list ! (i + 1)) (time_list ! i) = PosInf
      \<or> (\<exists>d>0. fsub (time_list ! (i + 1)) (time_list ! i) = Fin d)"
    using t by (rule fsub_increasing)
  have nn: "fdiv (fsub l1 l0) (fsub (time_list ! (i + 1)) (time_list ! i)) \<noteq> NaN"
    using num den by (intro fdiv_not_NaN) simp_all
  have "growth_rate data_list time_list i =
      Inr (let d = fdiv (fsub l1 l0) (fsub (time_list ! (i + 1)) (time_list ! i))
           in if flt d (Fin 0) then Fin 0 else d)"
    using i len r0(1) r1(1) l0(1) l1(1)
    by (simp add: growth_rate_def index_def bind_e_def Let_def)
  then show ?thesis using nn r0(1) r1(1) l0(1) l1(1) by auto
qed

lemma py_log_2: "py_log (Fin 2) = Inr (Fin (6243314768165359 / 2 ^ 53))"
proof -
  have "to_double (ln 2) = Fin (of_int 6243314768165359 * pow2 (- 1 - 52))"
    by (rule to_double_eval)
      (use ln_2_lower ln_2_upper in \<open>simp_all add: pow2_def abs_less_iff\<close>)
  then show ?thesis by (simp add: py_log_def pow2_def)
qed

lemma py_log_100: "py_log (Fin 100) = Inr (Fin (2592480341699211 / 2 ^ 49))"
proof -
  have "to_double (ln 100) = Fin (of_int 5184960683398422 * pow2 (2 - 52))"
    by (rule to_double_eval)
      (use ln_100_lower ln_100_upper in \<open>simp_all add: pow2_def abs_less_iff\<close>)
  then show ?thesis by (simp add: py_log_def pow2_def)
qed

lemma py_log_200: "py_log (Fin 200) = Inr (Fin (5965375029419091 / 2 ^ 50))"
proof -
  have "to_double (ln 200) = Fin (of_int 5965375029419091 * pow2 (2 - 52))"
    by (rule to_double_eval)
      (use ln_200_lower ln_200_upper in \<open>simp_all add: pow2_def abs_less_iff\<close>)
  then show ?thesis by (simp add: py_log_def pow2_def)
qed

lemma log_difference:
  "fsub (Fin (5965375029419091 / 2 ^ 50)) (Fin (2592480341699211 / 2 ^ 49))
     = Fin (780414346020669 / 2 ^ 50)"
proof -
  have "fsub (Fin (5965375029419091 / 2 ^ 50)) (Fin (2592480341699211 / 2 ^ 49))
      = to_double (5965375029419091 / 2 ^ 50 - 2592480341699211 / 2 ^ 49)"
    by (rule fsub_Fin) simp
  also have "(5965375029419091 / 2 ^ 50 - 2592480341699211 / 2 ^ 49 :: real)
      = 780414346020669 / 2 ^ 50" by simp
  also have "to_double (780414346020669 / 2 ^ 50)
      = Fin (of_int 6243314768165352 * pow2 (- 1 - 52))"
    by (rule to_double_eval) (simp_all add: pow2_def)
  also have "of_int 6243314768165352 * pow2 (- 1 - 52) = 780414346020669 / 2 ^ 50"
    by (simp add: pow2_def)
  finally show ?thesis .
qed

lemma time_difference: "fsub (Fin 10) (Fin 0) = Fin 10"
proof -
  have "fsub (Fin 10) (Fin 0) = to_double (10 - 0)" by (rule fsub_Fin) simp
  also have "(10 - 0 :: real) = 10" by simp
  also have "to_double 10 = Fin (of_int 5629499534213120 * pow2 (3 - 52))"
    by (rule to_double_eval) (simp_all add: pow2_def)
  also have "of_int 5629499534213120 * pow2 (3 - 52) = 10" by (simp add: pow2_def)
  finally show ?thesis .
qed

lemma rate_quotient:
  "fdiv (Fin (780414346020669 / 2 ^ 50)) (Fin 10) = Fin (2497325907266141 / 2 ^ 55)"
proof -
  have "fdiv (Fin (780414346020669 / 2 ^ 50)) (Fin 10)
      = to_double (780414346020669 / 2 ^ 50 / 10)"
    by (rule fdiv_Fin) simp_all
  also have "to_double (780414346020669 / 2 ^ 50 / 10)
      = Fin (of_int 4994651814532282 * pow2 (- 4 - 52))"
    by (rule to_double_eval) (simp_all add: pow2_def abs_less_iff)
  also have "of_int 4994651814532282 * pow2 (- 4 - 52) = 2497325907266141 / 2 ^ 55"
    by (simp add: pow2_def)
  finally show ?thesis .
qed

lemma doubling_quotient:
  "fdiv (Fin (6243314768165359 / 2 ^ 53)) (Fin (2497325907266141 / 2 ^ 55))
     = Fin (2814749767106563 / 2 ^ 48)"
proof -
  have "fdiv (Fin (6243314768165359 / 2 ^ 53)) (Fin (2497325907266141 / 2 ^ 55))
      = to_double (6243314768165359 / 2 ^ 53 / (2497325907266141 / 2 ^ 55))"
    by (rule fdiv_Fin) simp_all
  also have "to_double (6243314768165359 / 2 ^ 53 / (2497325907266141 / 2 ^ 55))
      = Fin (of_int 5629499534213126 * pow2 (3 - 52))"
    by (rule to_double_eval) (simp_all add: pow2_def abs_less_iff)
  also have "of_int 5629499534213126 * pow2 (3 - 52) = 2814749767106563 / 2 ^ 48"
    by (simp add: pow2_def)
  finally show ?thesis .
qed

lemma log_2_over_10:
  "fdiv (Fin (6243314768165359 / 2 ^ 53)) (Fin 10) = Fin (4994651814532287 / 2 ^ 56)"
proof -
  have "fdiv (Fin (6243314768165359 / 2 ^ 53)) (Fin 10)
      = to_double (6243314768165359 / 2 ^ 53 / 10)"
    by (rule fdiv_Fin) simp_all
  also have "to_double (6243314768165359 / 2 ^ 53 / 10)
      = Fin (of_int 4994651814532287 * pow2 (- 4 - 52))"
    by (rule to_double_eval) (simp_all add: pow2_def abs_less_iff)
  also have "of_int 4994651814532287 * pow2 (- 4 - 52) = 4994651814532287 / 2 ^ 56"
    by (simp add: pow2_def)
  finally show ?thesis .
qed

lemma growth_rate_pair:
  assumes "py_log q1 = Inr l1" "py_log q0 = Inr l0" "fsub l1 l0 = s" "fsub t1 t0 = dt"
    and "fdiv s dt = d" "\<not> flt d (Fin 0)"
  shows "growth_rate [q0, q1] [t0, t1] 0 = Inr d"
  using assms by (simp add: growth_rate_def index_def bind_e_def Let_def)

lemma GrowthMonitoring_init_pair:
  assumes "growth_rate [q0, q1] [t0, t1] 0 = Inr r" "doubling_time r = Inr t" "fne t0 t1"
  shows "GrowthMonitoring_init n [q0, q1] [t0, t1] =
     Inr \<lparr> g_name = n, g_data = [q0, q1], time = [t0, t1],
           package = [(t0, q0), (t1, q1)], mu = [Fin 0, r], td = [Fin 0, t] \<rparr>"
proof -
  have z: "doubling_time (Fin 0) = Inr (Fin 0)"
    by (simp add: doubling_time_def fne_def is_inf_def)
  have u: "[0 ..< 2] = [0, 1]" by (simp add: upt_conv_Cons)
  show ?thesis
    using assms z
    by (simp add: GrowthMonitoring_init_def bind_e_def index_def feq_def u)
qed

lemma GrowthMonitoring_init_doubling:
  "GrowthMonitoring_init n [Fin 100, Fin 200] [Fin 0, Fin 10] =
     Inr \<lparr> g_name = n, g_data = [Fin 100, Fin 200], time = [Fin 0, Fin 10],
           package = [(Fin 0, Fin 100), (Fin 10, Fin 200)],
           mu = [Fin 0, Fin (2497325907266141 / 2 ^ 55)],
           td = [Fin 0, Fin (2814749767106563 / 2 ^ 48)] \<rparr>"
proof (rule GrowthMonitoring_init_pair)
  show "growth_rate [Fin 100, Fin 200] [Fin 0, Fin 10] 0 = Inr (Fin (2497325907266141 / 2 ^ 55))"
    using py_log_200 py_log_100 log_difference time_difference rate_quotient
    by (rule growth_rate_pair) (simp add: flt_def val_def)
  show "doubling_time (Fin (2497325907266141 / 2 ^ 55)) = Inr (Fin (2814749767106563 / 2 ^ 48))"
  proof -
    have "fne (Fin (2497325907266141 / 2 ^ 55)) (Fin 0)"
      by (simp add: fne_def is_inf_def val_def)
    then show ?thesis
      by (simp only: doubling_time_def if_True py_log_2 bind_e_def sum.case doubling_quotient)
  qed
  show "fne (Fin 0) (Fin 10)" by (simp add: fne_def is_inf_def val_def)
qed


lemma representable_100: "representable 100"
  by (rule representable_eval [of 6 _ "100 * 2 ^ 46"]) (simp_all add: pow2_def)

lemma representable_200: "representable 200"
  by (rule representable_eval [of 7 _ "200 * 2 ^ 45"]) (simp_all add: pow2_def)

lemma representable_150: "representable 150"
  by (rule representable_eval [of 7 _ "150 * 2 ^ 45"]) (simp_all add: pow2_def)

lemma representable_10: "representable 10"
  by (rule representable_eval [of 3 _ "10 * 2 ^ 49"]) (simp_all add: pow2_def)

lemma representable_20: "representable 20"
  by (rule representable_eval [of 4 _ "20 * 2 ^ 48"]) (simp_all add: pow2_def)

text \<open>
  C5: for strictly positive finite quantities and strictly increasing times (one per
  quantity, all of them floats) the constructor returns, the growth rate at index 0 is 0,
  every growth rate is a number and is not below 0, and the rate after index 0 is the
  computed quotient unless that is negative, and exactly 0 when it is.
\<close>

theorem growth_rates_nonneg:
  assumes pos: "\<forall>x\<in>set data_list. flt (Fin 0) x \<and> \<not> is_inf x \<and> is_double x"
    and inc: "sorted_wrt flt time_list"
    and dbl: "\<forall>t\<in>set time_list. is_double t"
    and len: "length time_list = length data_list"
  shows "\<exists>g. GrowthMonitoring_init n data_list time_list = Inr g
           \<and> mu g ! 0 = Fin 0
           \<and> (\<forall>i<length (mu g). mu g ! i \<noteq> NaN \<and> \<not> flt (mu g ! i) (Fin 0))
           \<and> (\<forall>i. i + 1 < length data_list \<longrightarrow>
                 (\<exists>l1 l0. py_log (data_list ! (i + 1)) = Inr l1
                    \<and> py_log (data_list ! i) = Inr l0
                    \<and> mu g ! (i + 1) =
                        (let d = fdiv (fsub l1 l0) (fsub (time_list ! (i + 1)) (time_list ! i))
                         in if flt d (Fin 0) then Fin 0 else d)))"
proof -
  let ?q = "\<lambda>i l1 l0. fdiv (fsub l1 l0) (fsub (time_list ! (i + 1)) (time_list ! i))"
  have step: "\<exists>l1 l0. py_log (data_list ! (j + 1)) = Inr l1 \<and> py_log (data_list ! j) = Inr l0
           \<and> ?q j l1 l0 \<noteq> NaN
           \<and> growth_rate data_list time_list j =
               Inr (let d = ?q j l1 l0 in if flt d (Fin 0) then Fin 0 else d)"
    if "j + 1 < length data_list" for j
  proof -
    have "flt (time_list ! j) (time_list ! (j + 1))"
      using inc that len by (simp add: sorted_wrt_nth_less)
    moreover have "is_double (time_list ! j)" "is_double (time_list ! (j + 1))"
      using dbl that len by simp_all
    moreover have "flt (Fin 0) (data_list ! j) \<and> \<not> is_inf (data_list ! j) \<and> is_double (data_list ! j)"
      "flt (Fin 0) (data_list ! (j + 1)) \<and> \<not> is_inf (data_list ! (j + 1))
        \<and> is_double (data_list ! (j + 1))"
      using pos that by simp_all
    ultimately show ?thesis
      using that len by (intro growth_rate_value) simp_all
  qed
  have "\<exists>ds. collect (growth_rate data_list time_list) [0 ..< length data_list - 1] = Inr ds"
  proof (rule collect_total)
    fix j assume "j \<in> set [0 ..< length data_list - 1]"
    then have "j + 1 < length data_list" by simp
    from step [OF this] show "\<exists>d. growth_rate data_list time_list j = Inr d" by blast
  qed
  then obtain ds where
    ds: "collect (growth_rate data_list time_list) [0 ..< length data_list - 1] = Inr ds"
    by blast
  from collect_Inr[OF ds] have lds: "length ds = length data_list - 1"
    and nth: "\<forall>k<length data_list - 1. growth_rate data_list time_list k = Inr (ds ! k)"
    by simp_all
  have "\<exists>ts. collect (\<lambda>i. bind_e (index (Fin 0 # ds) i) doubling_time)
               [0 ..< length (Fin 0 # ds)] = Inr ts"
  proof (rule collect_total)
    fix j assume "j \<in> set [0 ..< length (Fin 0 # ds)]"
    then have "j < length (Fin 0 # ds)" by auto
    then have "index (Fin 0 # ds) j = Inr ((Fin 0 # ds) ! j)" by (simp only: index_def if_True)
    then show "\<exists>d. bind_e (index (Fin 0 # ds) j) doubling_time = Inr d"
      using doubling_time_returns [of "(Fin 0 # ds) ! j"] by (simp add: bind_e_def)
  qed
  then obtain ts where
    ts: "collect (\<lambda>i. bind_e (index (Fin 0 # ds) i) doubling_time)
               [0 ..< length (Fin 0 # ds)] = Inr ts"
    by blast
  define g where "g = \<lparr> g_name = n, g_data = data_list, time = time_list,
             package = foldl (\<lambda>d (t, q). dict_set d t q) [] (zip time_list data_list),
             mu = Fin 0 # ds, td = ts \<rparr>"
  have init: "GrowthMonitoring_init n data_list time_list = Inr g"
    using ds ts by (simp add: GrowthMonitoring_init_def bind_e_def g_def)
  have mu: "mu g = Fin 0 # ds" by (simp add: g_def)
  have val: "\<exists>l1 l0. py_log (data_list ! (k + 1)) = Inr l1 \<and> py_log (data_list ! k) = Inr l0
           \<and> ?q k l1 l0 \<noteq> NaN
           \<and> ds ! k = (let d = ?q k l1 l0 in if flt d (Fin 0) then Fin 0 else d)"
    if "k + 1 < length data_list" for k
    using nth step[OF that] that by auto
  have nonneg: "mu g ! i \<noteq> NaN \<and> \<not> flt (mu g ! i) (Fin 0)" if "i < length (mu g)" for i
  proof (cases i)
    case 0
    then show ?thesis by (simp add: mu flt_def val_def)
  next
    case (Suc k)
    then have "k + 1 < length data_list" using that lds by (simp add: mu)
    from val [OF this] obtain l1 l0 where
      "?q k l1 l0 \<noteq> NaN"
      "ds ! k = (let d = ?q k l1 l0 in if flt d (Fin 0) then Fin 0 else d)"
      by blast
    then show ?thesis using Suc by (simp add: mu Let_def flt_def val_def)
  qed
  have clamp: "\<exists>l1 l0. py_log (data_list ! (i + 1)) = Inr l1 \<and> py_log (data_list ! i) = Inr l0
           \<and> mu g ! (i + 1) = (let d = ?q i l1 l0 in if flt d (Fin 0) then Fin 0 else d)"
    if "i + 1 < length data_list" for i
    using val[OF that] by (auto simp: mu)
  show ?thesis
    using init nonneg clamp by (intro exI[of _ g]) (simp add: mu)
qed

theorem growth_rates_nonneg_witness:
  "\<exists>g. GrowthMonitoring_init ''culture'' [Fin 100, Fin 200, Fin 150] [Fin 0, Fin 10, Fin 20]
          = Inr g
        \<and> mu g ! 0 = Fin 0
        \<and> (\<forall>i<length (mu g). mu g ! i \<noteq> NaN \<and> \<not> flt (mu g ! i) (Fin 0))"
proof -
  have "\<forall>x\<in>set [Fin 100, Fin 200, Fin 150]. flt (Fin 0) x \<and> \<not> is_inf x \<and> is_double x"
    by (simp add: flt_def val_def is_inf_def is_double_def
        representable_100 representable_200 representable_150)
  moreover have "sorted_wrt flt [Fin 0, Fin 10, Fin 20]"
    by (simp add: flt_def val_def)
  moreover have "\<forall>t\<in>set [Fin 0, Fin 10, Fin 20]. is_double t"
    by (simp add: is_double_def representable_0 representable_10 representable_20)
  moreover have "length [Fin 0, Fin 10, Fin 20] = length [Fin 100, Fin 200, Fin 150]" by simp
  ultimately show ?thesis
    using growth_rates_nonneg [of "[Fin 100, Fin 200, Fin 150]" "[Fin 0, Fin 10, Fin 20]"
        "''culture''"]
    by blast
qed

text \<open>
  C6, as stated, fails: for the quantities 100, 200 at the times 0, 10 the rate at index 1
  is the double \<open>2497325907266141 / 2 ** 55\<close>, printed 0.06931471805599446, which is neither
  the number \<open>ln 2 / 10\<close> nor the double \<open>log(2) / 10\<close>, printed 0.06931471805599453; and the
  doubling time is \<open>2814749767106563 / 2 ** 48\<close>, printed 10.00000000000001, which is not
  10.
\<close>

theorem doubling_example_inexact:
  "\<exists>g. GrowthMonitoring_init ''culture'' [Fin 100, Fin 200] [Fin 0, Fin 10] = Inr g
        \<and> mu g ! 1 = Fin (2497325907266141 / 2 ^ 55)
        \<and> mu g ! 1 \<noteq> Fin (ln 2 / 10)
        \<and> py_log (Fin 2) = Inr (Fin (6243314768165359 / 2 ^ 53))
        \<and> fdiv (Fin (6243314768165359 / 2 ^ 53)) (Fin 10) = Fin (4994651814532287 / 2 ^ 56)
        \<and> fne (mu g ! 1) (Fin (4994651814532287 / 2 ^ 56))
        \<and> td g ! 1 = Fin (2814749767106563 / 2 ^ 48)
        \<and> fne (td g ! 1) (Fin 10)"
proof -
  let ?g = "\<lparr> g_name = ''culture'', g_data = [Fin 100, Fin 200], time = [Fin 0, Fin 10],
           package = [(Fin 0, Fin 100), (Fin 10, Fin 200)],
           mu = [Fin 0, Fin (2497325907266141 / 2 ^ 55)],
           td = [Fin 0, Fin (2814749767106563 / 2 ^ 48)] \<rparr>"
  have "(2497325907266141 / 2 ^ 55 :: real) < ln 2 / 10"
    using ln_2_lower by simp
  then have ne: "(2497325907266141 / 2 ^ 55 :: real) \<noteq> ln 2 / 10" by simp
  show ?thesis
  proof (intro exI [of _ ?g] conjI)
    show "GrowthMonitoring_init ''culture'' [Fin 100, Fin 200] [Fin 0, Fin 10] = Inr ?g"
      by (rule GrowthMonitoring_init_doubling)
    show "mu ?g ! 1 \<noteq> Fin (ln 2 / 10)" using ne by simp
    show "py_log (Fin 2) = Inr (Fin (6243314768165359 / 2 ^ 53))" by (rule py_log_2)
    show "fdiv (Fin (6243314768165359 / 2 ^ 53)) (Fin 10) = Fin (4994651814532287 / 2 ^ 56)"
      by (rule log_2_over_10)
  qed (simp_all add: fne_def is_inf_def val_def)
qed



section \<open>Properties of Stat\<close>

lemma set_from_data:
  "(\<And>v s'. data (upd v s') = data s') \<Longrightarrow> data (fst (set_from f upd s)) = data s"
  by (simp add: set_from_def split: sum.splits)

lemma set_from_unit:
  "(\<And>v s'. unit (upd v s') = unit s') \<Longrightarrow> unit (fst (set_from f upd s)) = unit s"
  by (simp add: set_from_def split: sum.splits)

lemma then_do_data:
  "(\<And>s'. data (fst (f s')) = data s') \<Longrightarrow> data (fst (then_do r f)) = data (fst r)"
  by (simp add: then_do_def split: sum.splits)

lemma then_do_unit:
  "(\<And>s'. unit (fst (f s')) = unit s') \<Longrightarrow> unit (fst (then_do r f)) = unit (fst r)"
  by (simp add: then_do_def split: sum.splits)

lemma set_from_returns: "snd (set_from f upd s) = Inr v \<Longrightarrow> v = PyNone"
  by (auto simp: set_from_def split: sum.splits)

lemma then_do_returns:
  "snd (then_do r f) = Inr v \<Longrightarrow> (\<And>s' w. snd (f s') = Inr w \<Longrightarrow> w = PyNone) \<Longrightarrow> v = PyNone"
  by (cases "snd r") (auto simp: then_do_def)

lemma recompute_data: "data (fst (recompute c s)) = data s"
  by (simp add: recompute_def then_do_data set_from_data)

lemma recompute_unit: "unit (fst (recompute c s)) = unit s"
  by (simp add: recompute_def then_do_unit set_from_unit)

lemma recompute_returns: "snd (recompute c s) = Inr v \<Longrightarrow> v = PyNone"
  unfolding recompute_def
  by (erule then_do_returns) (rule set_from_returns)

lemma recompute_textbook: "snd (recompute textbook s) = Inr PyNone"
  by (simp add: recompute_def textbook_def then_do_def set_from_def)

lemma set_unit_data: "data (fst (set_unit u operation s)) = data s"
  by (simp add: set_unit_def split: sum.splits)

lemma set_unit_returns: "snd (set_unit u operation s) = Inr v \<Longrightarrow> v = PyNone"
  by (auto simp: set_unit_def split: sum.splits)

lemma Stat_init_data: "data (fst (Stat_init c n xs u d)) = xs"
  by (simp add: Stat_init_def recompute_data)

lemma Stat_init_unit: "unit (fst (Stat_init c n xs u d)) = u"
  by (simp add: Stat_init_def recompute_unit)

lemma add_returns: "snd (add c s other) = Inr v \<Longrightarrow> v = PyNone"
  by (auto simp: add_def split: pyval.splits if_splits dest: recompute_returns)

lemma sub_returns: "snd (sub c s other) = Inr v \<Longrightarrow> v = PyNone"
  by (auto simp: sub_def split: pyval.splits if_splits dest: recompute_returns)

lemma mul_returns: "snd (mul c s other) = Inr v \<Longrightarrow> v = PyNone"
  by (auto simp: mul_def split: pyval.splits elim!: then_do_returns dest: set_unit_returns)

lemma truediv_returns: "snd (truediv c s other) = Inr v \<Longrightarrow> v = PyNone"
  by (auto simp: truediv_def split: pyval.splits if_splits elim!: then_do_returns
      dest: set_unit_returns)

lemma mul_data:
  "data (fst (mul c s (PyStat other))) = map2 (*) (data s) (data other)"
  by (simp add: mul_def then_do_data set_unit_data recompute_data)

lemma mul_textbook:
  "snd (mul textbook s (PyStat other)) =
     (case units_combining [unit s, unit other] ''*'' of Inl e \<Rightarrow> Inl e | Inr u \<Rightarrow> Inr PyNone)"
  using recompute_textbook [of "s\<lparr>data := map2 (*) (data s) (data other)\<rparr>"]
    recompute_unit [of textbook "s\<lparr>data := map2 (*) (data s) (data other)\<rparr>"]
  by (simp add: mul_def then_do_def set_unit_def split: sum.splits)

text \<open>
  C7: adding an operand that is not a Stat raises TypeError, adding a Stat of another unit
  raises ValueError, both without touching the receiver; adding a Stat of the same unit
  and length puts the element-wise sums in the receiver's data and leaves its unit.
\<close>

theorem Stat_add:
  "add c s PyNone = (s, Inl TypeError)
   \<and> add c s (PyNum x) = (s, Inl TypeError)
   \<and> (unit s \<noteq> unit other \<longrightarrow> add c s (PyStat other) = (s, Inl ValueError))
   \<and> (unit s = unit other \<and> length (data s) = length (data other) \<longrightarrow>
        data (fst (add c s (PyStat other))) = map2 (+) (data s) (data other)
        \<and> length (data (fst (add c s (PyStat other)))) = length (data s)
        \<and> unit (fst (add c s (PyStat other))) = unit s)"
  by (simp add: add_def recompute_data recompute_unit)

theorem Stat_add_witness:
  "snd (add textbook (fst (Stat_init textbook ''m1'' [1, 2] (Some ''g'') False))
         (PyStat (fst (Stat_init textbook ''m2'' [10, 20] (Some ''mL'') False))))
     = Inl ValueError
   \<and> data (fst (add textbook (fst (Stat_init textbook ''m1'' [1, 2] (Some ''g'') False))
         (PyStat (fst (Stat_init textbook ''m2'' [10, 20] (Some ''g'') False)))))
     = [11, 22]
   \<and> unit (fst (add textbook (fst (Stat_init textbook ''m1'' [1, 2] (Some ''g'') False))
         (PyStat (fst (Stat_init textbook ''m2'' [10, 20] (Some ''g'') False)))))
     = Some ''g''"
  using
    Stat_add [of textbook "fst (Stat_init textbook ''m1'' [1, 2] (Some ''g'') False)" 0
      "fst (Stat_init textbook ''m2'' [10, 20] (Some ''mL'') False)"]
    Stat_add [of textbook "fst (Stat_init textbook ''m1'' [1, 2] (Some ''g'') False)" 0
      "fst (Stat_init textbook ''m2'' [10, 20] (Some ''g'') False)"]
  by (simp add: Stat_init_data Stat_init_unit)

text \<open>
  C3, as stated, fails: multiplying two Stats built with the default unit None replaces
  the receiver's data and then raises AttributeError, and multiplying a Stat in \<open>g/mL\<close> by
  one in \<open>mL\<close> replaces the data and then raises IndexError.
\<close>

theorem Stat_mul_raises_after_mutation:
  "snd (mul textbook (fst (Stat_init textbook ''m1'' [1, 2] None False))
         (PyStat (fst (Stat_init textbook ''m2'' [10, 20] None False))))
     = Inl AttributeError
   \<and> data (fst (mul textbook (fst (Stat_init textbook ''m1'' [1, 2] None False))
         (PyStat (fst (Stat_init textbook ''m2'' [10, 20] None False)))))
     = [10, 40]
   \<and> snd (mul textbook (fst (Stat_init textbook ''m1'' [1, 2] (Some ''g/mL'') False))
         (PyStat (fst (Stat_init textbook ''m2'' [10, 20] (Some ''mL'') False))))
     = Inl IndexError
   \<and> data (fst (mul textbook (fst (Stat_init textbook ''m1'' [1, 2] (Some ''g/mL'') False))
         (PyStat (fst (Stat_init textbook ''m2'' [10, 20] (Some ''mL'') False)))))
     = [10, 40]
   \<and> data (fst (Stat_init textbook ''m1'' [1, 2] None False)) = [1, 2]"
proof -
  have a: "units_combining [None, None] ''*'' = Inl AttributeError"
    by code_simp
  have b: "units_combining [Some ''g/mL'', Some ''mL''] ''*'' = Inl IndexError"
    by code_simp
  show ?thesis
    by (simp add: mul_textbook mul_data Stat_init_data Stat_init_unit a b)
qed

text \<open>
  C3, amended: the errors of validation leave the receiver unchanged: TypeError for an
  operand that is not a Stat (all four operators), ValueError for differing units
  (\<open>+\<close> and \<open>-\<close>), ZeroDivisionError for a zero divisor in the element-wise division.
\<close>

theorem Stat_validation_errors:
  "((\<forall>x. other \<noteq> PyStat x) \<longrightarrow>
       add c s other = (s, Inl TypeError) \<and> sub c s other = (s, Inl TypeError)
       \<and> mul c s other = (s, Inl TypeError) \<and> truediv c s other = (s, Inl TypeError))
   \<and> (unit s \<noteq> unit other' \<longrightarrow>
       add c s (PyStat other') = (s, Inl ValueError)
       \<and> sub c s (PyStat other') = (s, Inl ValueError))
   \<and> (0 \<in> set (map snd (zip (data s) (data other'))) \<longrightarrow>
       truediv c s (PyStat other') = (s, Inl ZeroDivisionError))"
  by (cases other) (simp_all add: add_def sub_def mul_def truediv_def)

theorem Stat_validation_errors_witness:
  "mul textbook (fst (Stat_init textbook ''m1'' [1, 2] (Some ''g'') False)) (PyNum 3)
     = (fst (Stat_init textbook ''m1'' [1, 2] (Some ''g'') False), Inl TypeError)
   \<and> sub textbook (fst (Stat_init textbook ''m1'' [1, 2] (Some ''g'') False))
        (PyStat (fst (Stat_init textbook ''m2'' [10, 0] (Some ''mL'') False)))
     = (fst (Stat_init textbook ''m1'' [1, 2] (Some ''g'') False), Inl ValueError)
   \<and> truediv textbook (fst (Stat_init textbook ''m1'' [1, 2] (Some ''g'') False))
        (PyStat (fst (Stat_init textbook ''m2'' [10, 0] (Some ''mL'') False)))
     = (fst (Stat_init textbook ''m1'' [1, 2] (Some ''g'') False), Inl ZeroDivisionError)"
  using Stat_validation_errors [of "PyNum 3"
      textbook "fst (Stat_init textbook ''m1'' [1, 2] (Some ''g'') False)"
      "fst (Stat_init textbook ''m2'' [10, 0] (Some ''mL'') False)"]
  by (simp add: Stat_init_data Stat_init_unit)

lemma then_do_textbook:
  "snd (then_do (recompute textbook s) f) = snd (f (fst (recompute textbook s)))"
  "fst (then_do (recompute textbook s) f) = fst (f (fst (recompute textbook s)))"
  using recompute_textbook [of s] by (simp_all add: then_do_def)

lemma truediv_data:
  "0 \<notin> set (map snd (zip (data s) (data other))) \<Longrightarrow>
   data (fst (truediv c s (PyStat other))) = map2 (/) (data s) (data other)"
  by (simp add: truediv_def then_do_data set_unit_data recompute_data)

lemma mul_textbook_unit:
  "units_combining [unit s, unit other] ''*'' = Inr u \<Longrightarrow>
   unit (fst (mul textbook s (PyStat other))) = u"
  by (simp add: mul_def then_do_textbook set_unit_def recompute_unit)

lemma truediv_textbook:
  assumes "0 \<notin> set (map snd (zip (data s) (data other)))"
    and "units_combining [unit s, unit other] ''/'' = Inr u"
  shows "snd (truediv textbook s (PyStat other)) = Inr PyNone"
    and "unit (fst (truediv textbook s (PyStat other))) = u"
  using assms by (simp_all add: truediv_def then_do_textbook set_unit_def recompute_unit)

text \<open>
  C10: every operator of Stat replaces the data of the receiver by the element-wise results
  and, when nothing raises, returns None: an operator that returns returns None, and with
  reductions that return each of the four operators does return (for \<open>+\<close> and \<open>-\<close> when the
  units agree, for \<open>*\<close> and \<open>/\<close> when \<open>units_combining\<close> returns the new unit, \<open>/\<close> having no zero
  divisor). So the value of \<open>a + b\<close> is None, and a second operator applied to it, as in
  \<open>(a + b) + c\<close>, raises TypeError.
\<close>

theorem Stat_operators_return_None:
  "(snd (add c s other) = Inr v \<longrightarrow>
      v = PyNone \<and> py_add c v other2 = Inl TypeError
      \<and> (\<exists>x. other = PyStat x \<and> data (fst (add c s other)) = map2 (+) (data s) (data x)))
   \<and> (snd (sub c s other) = Inr v \<longrightarrow>
      v = PyNone
      \<and> (\<exists>x. other = PyStat x \<and> data (fst (sub c s other)) = map2 (-) (data s) (data x)))
   \<and> (snd (mul c s other) = Inr v \<longrightarrow>
      v = PyNone
      \<and> (\<exists>x. other = PyStat x \<and> data (fst (mul c s other)) = map2 (*) (data s) (data x)))
   \<and> (snd (truediv c s other) = Inr v \<longrightarrow>
      v = PyNone
      \<and> (\<exists>x. other = PyStat x \<and> data (fst (truediv c s other)) = map2 (/) (data s) (data x)))
   \<and> (unit s = unit x \<longrightarrow>
        snd (add textbook s (PyStat x)) = Inr PyNone
        \<and> data (fst (add c s (PyStat x))) = map2 (+) (data s) (data x)
        \<and> snd (sub textbook s (PyStat x)) = Inr PyNone
        \<and> data (fst (sub c s (PyStat x))) = map2 (-) (data s) (data x))
   \<and> data (fst (mul c s (PyStat x))) = map2 (*) (data s) (data x)
   \<and> (units_combining [unit s, unit x] ''*'' = Inr u \<longrightarrow>
        snd (mul textbook s (PyStat x)) = Inr PyNone
        \<and> unit (fst (mul textbook s (PyStat x))) = u)
   \<and> (0 \<notin> set (map snd (zip (data s) (data x))) \<longrightarrow>
        data (fst (truediv c s (PyStat x))) = map2 (/) (data s) (data x)
        \<and> (units_combining [unit s, unit x] ''/'' = Inr u' \<longrightarrow>
             snd (truediv textbook s (PyStat x)) = Inr PyNone
             \<and> unit (fst (truediv textbook s (PyStat x))) = u'))"
proof (intro conjI impI)
  assume h: "snd (add c s other) = Inr v"
  then show "v = PyNone" by (rule add_returns)
  then show "py_add c v other2 = Inl TypeError" by simp
  from h show "\<exists>x. other = PyStat x \<and> data (fst (add c s other)) = map2 (+) (data s) (data x)"
    by (cases other) (auto simp: add_def recompute_data split: if_splits)
next
  assume h: "snd (sub c s other) = Inr v"
  then show "v = PyNone" by (rule sub_returns)
  from h show "\<exists>x. other = PyStat x \<and> data (fst (sub c s other)) = map2 (-) (data s) (data x)"
    by (cases other) (auto simp: sub_def recompute_data split: if_splits)
next
  assume h: "snd (mul c s other) = Inr v"
  then show "v = PyNone" by (rule mul_returns)
  from h show "\<exists>x. other = PyStat x \<and> data (fst (mul c s other)) = map2 (*) (data s) (data x)"
  proof (cases other)
    case (PyStat x)
    then show ?thesis by (simp add: mul_data)
  qed (simp_all add: mul_def)
next
  assume h: "snd (truediv c s other) = Inr v"
  then show "v = PyNone" by (rule truediv_returns)
  from h show "\<exists>x. other = PyStat x \<and> data (fst (truediv c s other)) = map2 (/) (data s) (data x)"
    by (cases other)
      (auto simp: truediv_def then_do_data set_unit_data recompute_data split: if_splits)
next
  assume u: "unit s = unit x"
  show "snd (add textbook s (PyStat x)) = Inr PyNone"
    using u by (simp add: add_def recompute_textbook)
  show "data (fst (add c s (PyStat x))) = map2 (+) (data s) (data x)"
    using u by (simp add: add_def recompute_data)
  show "snd (sub textbook s (PyStat x)) = Inr PyNone"
    using u by (simp add: sub_def recompute_textbook)
  show "data (fst (sub c s (PyStat x))) = map2 (-) (data s) (data x)"
    using u by (simp add: sub_def recompute_data)
next
  show "data (fst (mul c s (PyStat x))) = map2 (*) (data s) (data x)" by (rule mul_data)
next
  assume u: "units_combining [unit s, unit x] ''*'' = Inr u"
  then show "snd (mul textbook s (PyStat x)) = Inr PyNone" by (simp add: mul_textbook)
  from u show "unit (fst (mul textbook s (PyStat x))) = u" by (rule mul_textbook_unit)
next
  assume z: "0 \<notin> set (map snd (zip (data s) (data x)))"
  then show "data (fst (truediv c s (PyStat x))) = map2 (/) (data s) (data x)"
    by (rule truediv_data)
  assume u: "units_combining [unit s, unit x] ''/'' = Inr u'"
  show "snd (truediv textbook s (PyStat x)) = Inr PyNone" using z u by (rule truediv_textbook)
  show "unit (fst (truediv textbook s (PyStat x))) = u'" using z u by (rule truediv_textbook)
qed

theorem Stat_operators_return_None_witness:
  "snd (add textbook (fst (Stat_init textbook ''m1'' [1, 2] (Some ''g'') False))
         (PyStat (fst (Stat_init textbook ''m2'' [10, 20] (Some ''g'') False))))
     = Inr PyNone
   \<and> data (fst (add textbook (fst (Stat_init textbook ''m1'' [1, 2] (Some ''g'') False))
         (PyStat (fst (Stat_init textbook ''m2'' [10, 20] (Some ''g'') False)))))
     = [11, 22]
   \<and> py_add textbook PyNone (PyStat (fst (Stat_init textbook ''m3'' [10, 20] (Some ''mL'') False)))
     = Inl TypeError
   \<and> snd (sub textbook (fst (Stat_init textbook ''m1'' [1, 2] (Some ''g'') False))
         (PyStat (fst (Stat_init textbook ''m2'' [10, 20] (Some ''g'') False))))
     = Inr PyNone
   \<and> data (fst (sub textbook (fst (Stat_init textbook ''m1'' [1, 2] (Some ''g'') False))
         (PyStat (fst (Stat_init textbook ''m2'' [10, 20] (Some ''g'') False)))))
     = [- 9, - 18]
   \<and> snd (mul textbook (fst (Stat_init textbook ''m1'' [1, 2] (Some ''g'') False))
         (PyStat (fst (Stat_init textbook ''m3'' [10, 20] (Some ''mL'') False))))
     = Inr PyNone
   \<and> data (fst (mul textbook (fst (Stat_init textbook ''m1'' [1, 2] (Some ''g'') False))
         (PyStat (fst (Stat_init textbook ''m3'' [10, 20] (Some ''mL'') False)))))
     = [10, 40]
   \<and> unit (fst (mul textbook (fst (Stat_init textbook ''m1'' [1, 2] (Some ''g'') False))
         (PyStat (fst (Stat_init textbook ''m3'' [10, 20] (Some ''mL'') False)))))
     = Some ''g.mL''
   \<and> snd (truediv textbook (fst (Stat_init textbook ''m1'' [1, 2] (Some ''g'') False))
         (PyStat (fst (Stat_init textbook ''m3'' [10, 20] (Some ''mL'') False))))
     = Inr PyNone
   \<and> data (fst (truediv textbook (fst (Stat_init textbook ''m1'' [1, 2] (Some ''g'') False))
         (PyStat (fst (Stat_init textbook ''m3'' [10, 20] (Some ''mL'') False)))))
     = [1 / 10, 1 / 10]
   \<and> unit (fst (truediv textbook (fst (Stat_init textbook ''m1'' [1, 2] (Some ''g'') False))
         (PyStat (fst (Stat_init textbook ''m3'' [10, 20] (Some ''mL'') False)))))
     = Some ''g/mL''"
proof -
  have a: "units_combining [Some ''g'', Some ''mL''] ''*'' = Inr (Some ''g.mL'')"
    by code_simp
  have b: "units_combining [Some ''g'', Some ''mL''] ''/'' = Inr (Some ''g/mL'')"
    by code_simp
  show ?thesis
    using
      Stat_operators_return_None
        [where c = textbook
          and s = "fst (Stat_init textbook ''m1'' [1, 2] (Some ''g'') False)"
          and other = "PyStat (fst (Stat_init textbook ''m2'' [10, 20] (Some ''g'') False))"
          and v = PyNone
          and ?other2.0 = "PyStat (fst (Stat_init textbook ''m3'' [10, 20] (Some ''mL'') False))"
          and x = "fst (Stat_init textbook ''m2'' [10, 20] (Some ''g'') False)"]
      Stat_operators_return_None
        [where c = textbook
          and s = "fst (Stat_init textbook ''m1'' [1, 2] (Some ''g'') False)"
          and x = "fst (Stat_init textbook ''m3'' [10, 20] (Some ''mL'') False)"
          and u = "Some ''g.mL''" and u' = "Some ''g/mL''"]
      a b
    by (simp add: Stat_init_data Stat_init_unit)
qed

end
